theory Spec2Isabelle
  imports Main "HOL-Library.Sublist" "HOL-Library.Multiset" "HOL-Library.AList"
begin

section \<open>Strings\<close>

text \<open>
  A JavaScript string is a sequence of code units. The model uses \<^typ>\<open>string\<close>, whose
  characters are the code units \<open>0x00\<close> .. \<open>0xFF\<close> (ASCII and the Latin-1 supplement),
  and gives the string methods the handler calls their ECMAScript meaning on that range.
\<close>

definition lower_char :: "char \<Rightarrow> char" where
  "lower_char c =
     (let n = (of_char c :: nat)
      in if (65 \<le> n \<and> n \<le> 90) \<or> (192 \<le> n \<and> n \<le> 222 \<and> n \<noteq> 215)
         then char_of (n + 32) else c)"

text \<open>\<^verbatim>\<open>String.prototype.toLowerCase\<close>.\<close>

definition toLowerCase :: "string \<Rightarrow> string" where
  "toLowerCase s = map lower_char s"

text \<open>\<^verbatim>\<open>s.startsWith(p)\<close>: the first \<open>length p\<close> code units of \<open>s\<close> are \<open>p\<close>.\<close>

definition startsWith :: "string \<Rightarrow> string \<Rightarrow> bool" where
  "startsWith s p = (take (length p) s = p)"

text \<open>
  \<^verbatim>\<open>s.endsWith(p)\<close>: with \<open>start = length s - length p\<close>, false when \<open>start\<close> is negative,
  otherwise the code units of \<open>s\<close> from \<open>start\<close> on are \<open>p\<close>.
\<close>

definition endsWith :: "string \<Rightarrow> string \<Rightarrow> bool" where
  "endsWith s p = (length p \<le> length s \<and> drop (length s - length p) s = p)"

text \<open>\<^verbatim>\<open>s.substring(n)\<close> with one argument.\<close>

definition substring :: "string \<Rightarrow> nat \<Rightarrow> string" where
  "substring s n = drop n s"

text \<open>\<^verbatim>\<open>Array.prototype.some\<close>: stops at the first element the callback accepts.\<close>

primrec array_some :: "('a \<Rightarrow> bool) \<Rightarrow> 'a list \<Rightarrow> bool" where
  "array_some f [] = False"
| "array_some f (x # xs) = (if f x then True else array_some f xs)"

section \<open>Sender pattern matcher\<close>

definition NEWSLETTER_PATTERNS :: "string list" where
  "NEWSLETTER_PATTERNS =
     [''*@mail.beehiiv.com'',
      ''*@substack.com'',
      ''*@convertkit.com'',
      ''crew@morningbrew.com'',
      ''hello@thehustle.co'',
      ''*@newsletters.feedbinusercontent.com'',
      ''*@ck.convertkit.com'',
      ''*@ghost.org'']"

text \<open>
  The callback that \<^verbatim>\<open>matchesNewsletterPattern\<close> hands to \<^verbatim>\<open>some\<close>: the test of one
  address against one pattern.
\<close>

definition matchesPattern :: "string \<Rightarrow> string \<Rightarrow> bool" where
  "matchesPattern email pattern =
     (if startsWith pattern ''*@'' then
        (let domain = substring pattern 2
         in endsWith (toLowerCase email) (toLowerCase domain))
      else toLowerCase email = toLowerCase pattern)"

text \<open>
  The matcher over a pattern list, and the source's function, which runs it on the
  constant list \<^verbatim>\<open>NEWSLETTER_PATTERNS\<close>.
\<close>

definition matchesPatterns :: "string list \<Rightarrow> string \<Rightarrow> bool" where
  "matchesPatterns patterns email = array_some (\<lambda>pattern. matchesPattern email pattern) patterns"

definition matchesNewsletterPattern :: "string \<Rightarrow> bool" where
  "matchesNewsletterPattern email = matchesPatterns NEWSLETTER_PATTERNS email"

section \<open>Extracting the sender address\<close>

text \<open>
  The class \<^verbatim>\<open>\s\<close> of a regular expression and the characters \<^verbatim>\<open>trim\<close> removes are the
  same set (white space and line terminators); in the modelled range these are tab, line
  feed, vertical tab, form feed, carriage return, space and the no-break space.
\<close>

definition isSpace :: "char \<Rightarrow> bool" where
  "isSpace c = ((of_char c :: nat) \<in> {9, 10, 11, 12, 13, 32, 160})"

definition trim :: "string \<Rightarrow> string" where
  "trim s = rev (dropWhile isSpace (rev (dropWhile isSpace s)))"

text \<open>
  \<^verbatim>\<open>from.match(/<([^>]+)>/)\<close>, as its capture group: at the leftmost \<open><\<close> that is followed
  by at least one character other than \<open>>\<close> and then by \<open>>\<close>, the characters in between.
\<close>

fun match_angle :: "string \<Rightarrow> string option" where
  "match_angle [] = None"
| "match_angle (c # cs) =
     (if c = CHR ''<'' then
        (let g = takeWhile (\<lambda>x. x \<noteq> CHR ''>'') cs
         in if g \<noteq> [] \<and> length g < length cs then Some g else match_angle cs)
      else match_angle cs)"

text \<open>
  \<^verbatim>\<open>from.match(/([^\s]+@[^\s]+)/)\<close>, as its capture group: the leftmost maximal run of
  non-space characters that has an \<open>@\<close> which is neither its first nor its last character.
  \<open>tokens acc s\<close> splits \<open>s\<close> into its maximal runs of non-space characters, \<open>acc\<close> holding
  the run being read, reversed.
\<close>

fun tokens :: "string \<Rightarrow> string \<Rightarrow> string list" where
  "tokens acc [] = (if acc = [] then [] else [rev acc])"
| "tokens acc (c # cs) =
     (if isSpace c then (if acc = [] then tokens [] cs else rev acc # tokens [] cs)
      else tokens (c # acc) cs)"

definition has_inner_at :: "string \<Rightarrow> bool" where
  "has_inner_at t = (CHR ''@'' \<in> set (butlast (tl t)))"

definition match_bare :: "string \<Rightarrow> string option" where
  "match_bare s = find has_inner_at (tokens [] s)"

text \<open>
  \<^verbatim>\<open>emailMatch ? (emailMatch[1] || emailMatch[0]).trim() : from\<close>; the capture group of
  either expression is never empty, so \<^verbatim>\<open>emailMatch[1]\<close> is the value trimmed.
\<close>

definition extractEmail :: "string \<Rightarrow> string" where
  "extractEmail from_value =
     (case match_angle from_value of
        Some g \<Rightarrow> trim g
      | None \<Rightarrow> (case match_bare from_value of Some g \<Rightarrow> trim g | None \<Rightarrow> from_value))"

section \<open>Errors\<close>

text \<open>Decimal rendering of a number inside a template literal.\<close>

function show_digits :: "int \<Rightarrow> string" where
  "show_digits n =
     (if n < 10 then [char_of (48 + n)]
      else show_digits (n div 10) @ [char_of (48 + n mod 10)])"
  by pat_completeness auto
termination
  by (relation "measure nat") auto

declare show_digits.simps [simp del]

definition show_int :: "int \<Rightarrow> string" where
  "show_int i = (if i < 0 then CHR ''-'' # show_digits (- i) else show_digits i)"

definition show_nat :: "nat \<Rightarrow> string" where
  "show_nat n = show_digits (int n)"

text \<open>
  Every \<^verbatim>\<open>throw\<close> of the source, and the rejection of a \<^verbatim>\<open>fetch\<close> promise, as a value.
  \<open>RefreshFailure\<close> is \<^verbatim>\<open>Error('Failed to refresh token')\<close>; \<open>ApiFailure\<close> is the
  \<^verbatim>\<open>Error\<close> of \<^verbatim>\<open>makeRequest\<close> with the status and the status text of the response;
  \<open>TypeError\<close>, with the engine's message, is what reading a property of \<^verbatim>\<open>null\<close> or
  calling a value that is not a function throws.
\<close>

datatype error =
    NetworkFailure string
  | RefreshFailure
  | ApiFailure nat string
  | MissingAuthHeader
  | InvalidToken
  | TypeError string

fun message :: "error \<Rightarrow> string" where
  "message (NetworkFailure m) = m"
| "message RefreshFailure = ''Failed to refresh token''"
| "message (ApiFailure st txt) = ''Gmail API error: '' @ show_nat st @ '' '' @ txt"
| "message MissingAuthHeader = ''Missing authorization header''"
| "message InvalidToken = ''Invalid or expired token''"
| "message (TypeError m) = m"

section \<open>The provider's data and the world around the handler\<close>

text \<open>
  A value of the program whose shape nothing checks: what \<^verbatim>\<open>JSON.parse\<close> can return
  (\<^verbatim>\<open>null\<close>, a boolean, a number, a string, an array, an object with its members in
  order), and \<^verbatim>\<open>undefined\<close>. Of a number only whether it is zero is ever observed, so an
  integer stands for it.
\<close>

datatype jsval =
    JUndefined
  | JNull
  | JBool bool
  | JNum int
  | JStr string
  | JArr "jsval list"
  | JObj "(string \<times> jsval) list"

text \<open>Truthiness, as \<^verbatim>\<open>||\<close> and \<^verbatim>\<open>?:\<close> test it; \<open>or_else a b\<close> is \<^verbatim>\<open>a || b\<close>.\<close>

fun truthy :: "jsval \<Rightarrow> bool" where
  "truthy JUndefined = False"
| "truthy JNull = False"
| "truthy (JBool b) = b"
| "truthy (JNum n) = (n \<noteq> 0)"
| "truthy (JStr s) = (s \<noteq> [])"
| "truthy (JArr xs) = True"
| "truthy (JObj kvs) = True"

definition or_else :: "jsval \<Rightarrow> jsval \<Rightarrow> jsval" where
  "or_else a b = (if truthy a then a else b)"

text \<open>
  \<^verbatim>\<open>v.k\<close> for the keys the loop reads (\<^verbatim>\<open>payload\<close>, \<^verbatim>\<open>headers\<close>, \<^verbatim>\<open>name\<close>,
  \<^verbatim>\<open>value\<close>), none of which is a built-in property of a string, an array, a number or a
  boolean: on \<^verbatim>\<open>null\<close> and \<^verbatim>\<open>undefined\<close> the read throws, on an object it gives the
  member (the last one of that name, as \<^verbatim>\<open>JSON.parse\<close> keeps it) or \<^verbatim>\<open>undefined\<close>, on
  anything else \<^verbatim>\<open>undefined\<close>. \<open>opt_prop v k\<close> is \<^verbatim>\<open>v?.k\<close>.
\<close>

fun get_prop :: "jsval \<Rightarrow> string \<Rightarrow> error + jsval" where
  "get_prop JUndefined k =
     Inl (TypeError (''Cannot read properties of undefined (reading '' @ [CHR 0x27] @ k
                       @ [CHR 0x27] @ '')''))"
| "get_prop JNull k =
     Inl (TypeError (''Cannot read properties of null (reading '' @ [CHR 0x27] @ k
                       @ [CHR 0x27] @ '')''))"
| "get_prop (JObj kvs) k = Inr (case map_of (rev kvs) k of None \<Rightarrow> JUndefined | Some v \<Rightarrow> v)"
| "get_prop v k = Inr JUndefined"

fun opt_prop :: "jsval \<Rightarrow> string \<Rightarrow> jsval" where
  "opt_prop JUndefined k = JUndefined"
| "opt_prop JNull k = JUndefined"
| "opt_prop (JObj kvs) k = (case map_of (rev kvs) k of None \<Rightarrow> JUndefined | Some v \<Rightarrow> v)"
| "opt_prop v k = JUndefined"

record message_header =
  h_name :: string
  h_value :: string

record message_payload =
  headers :: "message_header list option"

text \<open>
  The interface \<^verbatim>\<open>GmailMessage\<close>; an absent optional field is \<open>None\<close>. The handler reads
  the \<^verbatim>\<open>id\<close> of the summaries of a listing.
\<close>

record GmailMessage =
  gm_id :: string
  threadId :: string
  payload :: "message_payload option"

text \<open>
  The decoded JSON body of a response of the message API: a listing, whose \<^verbatim>\<open>messages\<close>
  field may be absent, or the detail of one message, which the loop reads without checking
  its shape and which is therefore any value.
\<close>

datatype api_body = ListBody "GmailMessage list option" | MessageBody jsval

fun messages :: "api_body \<Rightarrow> GmailMessage list option" where
  "messages (ListBody ms) = ms"
| "messages (MessageBody v) = None"

text \<open>
  The body as the loop reads it; a listing read there is an object without the field
  \<^verbatim>\<open>payload\<close>.
\<close>

fun detail_value :: "api_body \<Rightarrow> jsval" where
  "detail_value (MessageBody v) = v"
| "detail_value (ListBody ms) = JObj []"

text \<open>The decoded body of a response of the token endpoint.\<close>

datatype token_body = TokenBody (body_access_token: string)

record 'b response =
  status :: nat
  statusText :: string
  json :: 'b

text \<open>\<^verbatim>\<open>response.ok\<close>: the status is in the range 200 to 299.\<close>

definition ok :: "'b response \<Rightarrow> bool" where
  "ok r = (200 \<le> status r \<and> status r \<le> 299)"

text \<open>A \<^verbatim>\<open>fetch\<close> either rejects (a network failure) or resolves to a response.\<close>

datatype 'b fetch_outcome = Rejects string | Responds "'b response"

text \<open>
  The requests the client sends. \<open>MessagesUrl q n\<close> is the listing URL with the parameters
  \<^verbatim>\<open>q\<close> and \<^verbatim>\<open>maxResults\<close>, \<open>MessageUrl i\<close> the metadata URL of message \<open>i\<close>.
  \<open>TokenRequest\<close> is the form-encoded POST to the token endpoint with the client id, the
  client secret and the refresh token (the grant type is the constant
  \<^verbatim>\<open>refresh_token\<close>); \<open>ApiRequest\<close> carries the URL and the request headers.
\<close>

datatype api_url = MessagesUrl string nat | MessageUrl string

datatype request =
    TokenRequest string string string
  | ApiRequest api_url "(string \<times> string) list"

record auth_token_row =
  user_id :: string
  access_token :: string
  refresh_token :: string
  updated_at :: int

record curated_row =
  email_pattern :: string
  name :: string
  is_active :: bool

text \<open>One \<^verbatim>\<open>update\<close> of the table \<^verbatim>\<open>auth_tokens\<close>: the user, the token, the timestamp.\<close>

datatype store_write = StoreWrite string string int

datatype log_entry =
    LogTokenExpired
  | LogRefreshed
  | ErrRefreshing error
  | LogTesting string
  | LogFetching
  | LogFound nat
  | ErrProcessing string error
  | ErrTestFunction error

text \<open>
  Everything outside the handler. \<open>env\<close> is the process environment, \<open>clock\<close> the reading
  of \<^verbatim>\<open>new Date()\<close> in milliseconds since the epoch (one reading for the whole request;
  \<open>updated_at\<close> holds it as a number), \<open>sessions\<close> the identity service
  (the user a JWT belongs to, if any), \<open>auth_tokens\<close> and \<open>newsletters_curated\<close> the two
  tables. \<open>token_endpoint\<close> and \<open>gmail_api\<close> hold the outcomes of the coming \<^verbatim>\<open>fetch\<close>
  calls to the two hosts, in order; when none is left the call rejects. \<open>sent\<close>,
  \<open>store_writes\<close> and \<open>console\<close> record, in order, the requests sent, the updates
  issued to \<open>auth_tokens\<close> and the lines logged.
\<close>

record world =
  env :: "string \<Rightarrow> string option"
  clock :: int
  sessions :: "string \<Rightarrow> string option"
  auth_tokens :: "auth_token_row list"
  newsletters_curated :: "curated_row list"
  token_endpoint :: "token_body fetch_outcome list"
  gmail_api :: "api_body fetch_outcome list"
  sent :: "request list"
  store_writes :: "store_write list"
  console :: "log_entry list"

definition log :: "log_entry \<Rightarrow> world \<Rightarrow> world" where
  "log l w = w\<lparr>console := console w @ [l]\<rparr>"

text \<open>\<^verbatim>\<open>Deno.env.get(k) || ''\<close>.\<close>

definition getenv :: "world \<Rightarrow> string \<Rightarrow> string" where
  "getenv w k = (case env w k of None \<Rightarrow> [] | Some v \<Rightarrow> v)"

definition fetch_token :: "request \<Rightarrow> world \<Rightarrow> token_body fetch_outcome \<times> world" where
  "fetch_token rq w =
     (case token_endpoint w of
        [] \<Rightarrow> (Rejects ''fetch failed'', w\<lparr>sent := sent w @ [rq]\<rparr>)
      | x # xs \<Rightarrow> (x, w\<lparr>token_endpoint := xs, sent := sent w @ [rq]\<rparr>))"

definition fetch_api :: "request \<Rightarrow> world \<Rightarrow> api_body fetch_outcome \<times> world" where
  "fetch_api rq w =
     (case gmail_api w of
        [] \<Rightarrow> (Rejects ''fetch failed'', w\<lparr>sent := sent w @ [rq]\<rparr>)
      | x # xs \<Rightarrow> (x, w\<lparr>gmail_api := xs, sent := sent w @ [rq]\<rparr>))"

text \<open>
  \<^verbatim>\<open>supabase.from('auth_tokens').update({access_token, updated_at}).eq('user_id', userId)\<close>.
\<close>

definition store_update :: "string \<Rightarrow> string \<Rightarrow> world \<Rightarrow> world" where
  "store_update uid tok w =
     w\<lparr>auth_tokens :=
          map (\<lambda>r. if user_id r = uid then r\<lparr>access_token := tok, updated_at := clock w\<rparr> else r)
            (auth_tokens w),
       store_writes := store_writes w @ [StoreWrite uid tok (clock w)]\<rparr>"

text \<open>\<^verbatim>\<open>.select(...).eq(...).single()\<close>: the row when exactly one matches, an error otherwise.\<close>

fun single :: "'a list \<Rightarrow> 'a option" where
  "single [r] = Some r"
| "single rs = None"

section \<open>The token-refreshing client\<close>

text \<open>
  The closure of \<^verbatim>\<open>createGmailClient\<close>: its parameters \<^verbatim>\<open>userId\<close> and
  \<^verbatim>\<open>refreshToken\<close> and its variable \<^verbatim>\<open>currentAccessToken\<close>. Every function of the
  client takes the closure and the world and returns them updated, with \<open>Inl\<close> of the
  error when it throws.
\<close>

record gmail_client =
  userId :: string
  refreshToken :: string
  currentAccessToken :: string

definition createGmailClient :: "string \<Rightarrow> string \<Rightarrow> string \<Rightarrow> gmail_client" where
  "createGmailClient uid accessToken refreshTok =
     \<lparr>userId = uid, refreshToken = refreshTok, currentAccessToken = accessToken\<rparr>"

definition refreshAccessToken ::
  "gmail_client \<Rightarrow> world \<Rightarrow> (error + string) \<times> gmail_client \<times> world" where
  "refreshAccessToken c w =
     (case fetch_token (TokenRequest (getenv w ''GOOGLE_CLIENT_ID'')
                          (getenv w ''GOOGLE_CLIENT_SECRET'') (refreshToken c)) w of
        (Rejects m, w1) \<Rightarrow> (Inl (NetworkFailure m), c, log (ErrRefreshing (NetworkFailure m)) w1)
      | (Responds response, w1) \<Rightarrow>
          if \<not> ok response then (Inl RefreshFailure, c, log (ErrRefreshing RefreshFailure) w1)
          else
            (let data = json response;
                 c1 = c\<lparr>currentAccessToken := body_access_token data\<rparr>;
                 w2 = store_update (userId c1) (currentAccessToken c1) w1
             in (Inr (currentAccessToken c1), c1, log LogRefreshed w2)))"

text \<open>
  The headers of a request of \<^verbatim>\<open>makeRequest\<close>: the object literal with the bearer token
  and the content type, then the spread of \<^verbatim>\<open>options.headers\<close>, which replaces the value
  of a key already there and appends a new key.
\<close>

definition request_headers :: "string \<Rightarrow> (string \<times> string) list \<Rightarrow> (string \<times> string) list" where
  "request_headers token options_headers =
     AList.merge [(''Authorization'', ''Bearer '' @ token), (''Content-Type'', ''application/json'')]
       options_headers"

text \<open>The end of \<^verbatim>\<open>makeRequest\<close>: throw unless the response is ok, else return its body.\<close>

definition finish :: "api_body response \<Rightarrow> error + api_body" where
  "finish response =
     (if \<not> ok response then Inl (ApiFailure (status response) (statusText response))
      else Inr (json response))"

definition makeRequest ::
  "api_url \<Rightarrow> (string \<times> string) list \<Rightarrow> gmail_client \<Rightarrow> world
     \<Rightarrow> (error + api_body) \<times> gmail_client \<times> world" where
  "makeRequest url options_headers c w =
     (case fetch_api (ApiRequest url (request_headers (currentAccessToken c) options_headers)) w of
        (Rejects m, w1) \<Rightarrow> (Inl (NetworkFailure m), c, w1)
      | (Responds response, w1) \<Rightarrow>
          if status response = 401 then
            (case refreshAccessToken c (log LogTokenExpired w1) of
               (Inl e, c2, w2) \<Rightarrow> (Inl e, c2, w2)
             | (Inr token, c2, w2) \<Rightarrow>
                 (let c3 = c2\<lparr>currentAccessToken := token\<rparr>
                  in case fetch_api
                       (ApiRequest url (request_headers (currentAccessToken c3) options_headers)) w2 of
                       (Rejects m, w3) \<Rightarrow> (Inl (NetworkFailure m), c3, w3)
                     | (Responds retried, w3) \<Rightarrow> (finish retried, c3, w3)))
          else (finish response, c, w1))"

text \<open>
  The two wrapped calls; both call \<^verbatim>\<open>makeRequest\<close> with the default, empty options, so
  of \<^verbatim>\<open>options\<close> only the headers are modelled.
\<close>

definition listMessages ::
  "string \<Rightarrow> nat \<Rightarrow> gmail_client \<Rightarrow> world \<Rightarrow> (error + api_body) \<times> gmail_client \<times> world" where
  "listMessages query maxResults c w = makeRequest (MessagesUrl query maxResults) [] c w"

definition getMessage ::
  "string \<Rightarrow> gmail_client \<Rightarrow> world \<Rightarrow> (error + api_body) \<times> gmail_client \<times> world" where
  "getMessage messageId c w = makeRequest (MessageUrl messageId) [] c w"

section \<open>The request handler\<close>

record http_request =
  req_method :: string
  authorization :: "string option"

text \<open>An entry of \<^verbatim>\<open>detectedNewsletters\<close>; \<open>from_value\<close> is its field \<^verbatim>\<open>from\<close>.\<close>

record detected =
  messageId :: string
  from_value :: string
  email :: string
  subject :: jsval
  date :: jsval
  matched :: bool

text \<open>
  The report of a completed run: the four fields of \<^verbatim>\<open>stats\<close>, the fields
  \<^verbatim>\<open>detectedNewsletters\<close> and \<^verbatim>\<open>curatedPatterns\<close>, and in
  \<open>newsletterDetection\<close> whether \<^verbatim>\<open>testResults.newsletterDetection\<close> is the text for
  found newsletters; the other three texts of \<^verbatim>\<open>testResults\<close> are constants.
\<close>

record report =
  stats_totalEmails :: nat
  stats_processedEmails :: nat
  stats_detectedNewsletters :: nat
  stats_curatedPatternsCount :: nat
  report_detectedNewsletters :: "detected list"
  report_curatedPatterns :: "(string \<times> string) list"
  newsletterDetection :: bool

text \<open>
  The bodies the handler serialises: the text \<^verbatim>\<open>ok\<close> of a preflight; the object with
  \<^verbatim>\<open>success\<close>, \<^verbatim>\<open>error\<close> and \<^verbatim>\<open>needsReauth\<close>; the object for no recent emails with
  \<^verbatim>\<open>success\<close>, \<^verbatim>\<open>message\<close> and the three fields of \<^verbatim>\<open>stats\<close>; the report with
  \<^verbatim>\<open>success\<close> and \<^verbatim>\<open>message\<close>; and the failure object with \<^verbatim>\<open>success\<close> and the
  message of the error (its stack trace is left out).
\<close>

datatype response_body =
    OkText
  | NeedsReauth bool string bool
  | NoRecentEmails bool string nat nat "detected list"
  | Report bool string report
  | Failure bool string

record http_response =
  resp_status :: nat
  resp_headers :: "(string \<times> string) list"
  resp_body :: response_body

definition corsHeaders :: "(string \<times> string) list" where
  "corsHeaders =
     [(''Access-Control-Allow-Origin'', ''*''),
      (''Access-Control-Allow-Headers'', ''authorization, x-client-info, apikey, content-type'')]"

definition json_headers :: "(string \<times> string) list" where
  "json_headers = AList.merge corsHeaders [(''Content-Type'', ''application/json'')]"

text \<open>\<^verbatim>\<open>s.replace(p, r)\<close> with a string pattern: the first occurrence of \<open>p\<close> becomes \<open>r\<close>.\<close>

fun replace_first :: "string \<Rightarrow> string \<Rightarrow> string \<Rightarrow> string" where
  "replace_first p r [] = (if p = [] then r else [])"
| "replace_first p r (c # cs) =
     (if startsWith (c # cs) p then r @ drop (length p) (c # cs)
      else c # replace_first p r cs)"

text \<open>\<^verbatim>\<open>fullMessage.payload?.headers || []\<close>.\<close>

definition headers_of :: "jsval \<Rightarrow> error + jsval" where
  "headers_of fullMessage =
     (case get_prop fullMessage ''payload'' of
        Inl e \<Rightarrow> Inl e
      | Inr p \<Rightarrow> Inr (or_else (opt_prop p ''headers'') (JArr [])))"

text \<open>
  \<^verbatim>\<open>headers.find(h => h.name === n)\<close> on an array: the first element whose \<^verbatim>\<open>name\<close> is
  the string \<open>n\<close>, \<^verbatim>\<open>undefined\<close> when there is none; reading \<^verbatim>\<open>name\<close> of an element
  that is \<^verbatim>\<open>null\<close> throws.
\<close>

fun find_named :: "string \<Rightarrow> jsval list \<Rightarrow> error + jsval" where
  "find_named n [] = Inr JUndefined"
| "find_named n (h # hs) =
     (case get_prop h ''name'' of
        Inl e \<Rightarrow> Inl e
      | Inr v \<Rightarrow> if v = JStr n then Inr h else find_named n hs)"

text \<open>
  \<^verbatim>\<open>headers.find(h => h.name === n)?.value || ''\<close>; \<^verbatim>\<open>headers\<close> is truthy here, and
  only an array has the method \<^verbatim>\<open>find\<close>.
\<close>

definition header_value :: "string \<Rightarrow> jsval \<Rightarrow> error + jsval" where
  "header_value n hs =
     (case hs of
        JArr xs \<Rightarrow>
          (case find_named n xs of
             Inl e \<Rightarrow> Inl e
           | Inr h \<Rightarrow> Inr (or_else (opt_prop h ''value'') (JStr [])))
      | _ \<Rightarrow> Inl (TypeError ''headers.find is not a function''))"

text \<open>
  The reads of the loop body between the fetch and the test of the address: the headers,
  then \<^verbatim>\<open>from\<close>, \<^verbatim>\<open>subject\<close> and \<^verbatim>\<open>dateHeader\<close> in this order, then the address, for
  which \<^verbatim>\<open>from\<close> must be a string (nothing else has the method \<^verbatim>\<open>match\<close>). The result
  is \<^verbatim>\<open>from\<close>, \<^verbatim>\<open>subject\<close>, \<^verbatim>\<open>dateHeader\<close> and \<^verbatim>\<open>emailAddress\<close>.
\<close>

definition message_fields :: "jsval \<Rightarrow> error + (string \<times> jsval \<times> jsval \<times> string)" where
  "message_fields fullMessage =
     (case headers_of fullMessage of
        Inl e \<Rightarrow> Inl e
      | Inr hs \<Rightarrow>
          (case header_value ''From'' hs of
             Inl e \<Rightarrow> Inl e
           | Inr from_hdr \<Rightarrow>
               (case header_value ''Subject'' hs of
                  Inl e \<Rightarrow> Inl e
                | Inr subject_hdr \<Rightarrow>
                    (case header_value ''Date'' hs of
                       Inl e \<Rightarrow> Inl e
                     | Inr dateHeader \<Rightarrow>
                         (case from_hdr of
                            JStr s \<Rightarrow> Inr (s, subject_hdr, dateHeader, extractEmail s)
                          | _ \<Rightarrow> Inl (TypeError ''from.match is not a function''))))))"

text \<open>
  The loop over the summaries, with \<^verbatim>\<open>detectedNewsletters\<close> and \<^verbatim>\<open>processedCount\<close> as
  accumulators. The body of the loop is inside \<^verbatim>\<open>try\<close>: an error of \<^verbatim>\<open>getMessage\<close> or
  of the reads of its result is logged and the loop goes on to the next summary.
\<close>

fun process_messages ::
  "GmailMessage list \<Rightarrow> gmail_client \<Rightarrow> world \<Rightarrow> detected list \<Rightarrow> nat
     \<Rightarrow> (detected list \<times> nat) \<times> gmail_client \<times> world" where
  "process_messages [] c w detectedNewsletters processedCount =
     ((detectedNewsletters, processedCount), c, w)"
| "process_messages (m # ms) c w detectedNewsletters processedCount =
     (case getMessage (gm_id m) c w of
        (Inl e, c1, w1) \<Rightarrow>
          process_messages ms c1 (log (ErrProcessing (gm_id m) e) w1)
            detectedNewsletters processedCount
      | (Inr fullMessage, c1, w1) \<Rightarrow>
          (case message_fields (detail_value fullMessage) of
             Inl e \<Rightarrow>
               process_messages ms c1 (log (ErrProcessing (gm_id m) e) w1)
                 detectedNewsletters processedCount
           | Inr (from_hdr, subject_hdr, dateHeader, emailAddress) \<Rightarrow>
               process_messages ms c1 w1
                 (if matchesNewsletterPattern emailAddress
                  then detectedNewsletters @
                       [\<lparr>messageId = gm_id m, from_value = from_hdr, email = emailAddress,
                         subject = subject_hdr, date = dateHeader, matched = True\<rparr>]
                  else detectedNewsletters)
                 (processedCount + 1)))"

text \<open>
  The body of the handler's \<^verbatim>\<open>try\<close>. \<^verbatim>\<open>createClient\<close> only builds the object through
  which the identity service and the tables are reached. \<^verbatim>\<open>yesterday\<close> is the clock
  reading one calendar day earlier, which in UTC is 86400000 milliseconds earlier.
\<close>

definition handle :: "http_request \<Rightarrow> world \<Rightarrow> (error + http_response) \<times> world" where
  "handle req w =
     (case authorization req of
        None \<Rightarrow> (Inl MissingAuthHeader, w)
      | Some authHeader \<Rightarrow>
          if authHeader = [] then (Inl MissingAuthHeader, w)
          else
            (let jwt = replace_first ''Bearer '' [] authHeader
             in case sessions w jwt of
                  None \<Rightarrow> (Inl InvalidToken, w)
                | Some uid \<Rightarrow>
                    (let w1 = log (LogTesting uid) w
                     in case single (filter (\<lambda>r. user_id r = uid) (auth_tokens w1)) of
                          None \<Rightarrow>
                            (Inr \<lparr>resp_status = 200, resp_headers = json_headers,
                                  resp_body = NeedsReauth False
                                    ''No Gmail tokens found. Please reconnect your Gmail account.''
                                    True\<rparr>, w1)
                        | Some authData \<Rightarrow>
                            (let gmail = createGmailClient uid (access_token authData)
                                           (refresh_token authData);
                                 formattedDate = (clock w1 - 86400000) div 1000;
                                 w2 = log LogFetching w1
                             in case listMessages (''after:'' @ show_int formattedDate) 20 gmail w2 of
                                  (Inl e, c3, w3) \<Rightarrow> (Inl e, w3)
                                | (Inr recentEmails, c3, w3) \<Rightarrow>
                                    (case messages recentEmails of
                                       None \<Rightarrow>
                                         (Inr \<lparr>resp_status = 200, resp_headers = json_headers,
                                               resp_body = NoRecentEmails True
                                                 ''Gmail connection successful, but no recent emails found.''
                                                 0 0 []\<rparr>, w3)
                                     | Some msgs \<Rightarrow>
                                         (let w4 = log (LogFound (length msgs)) w3
                                          in case process_messages (take 10 msgs) c3 w4 [] 0 of
                                               ((det, processedCount), c5, w5) \<Rightarrow>
                                                 (let curatedNewsletters =
                                                        filter is_active (newsletters_curated w5)
                                                  in (Inr \<lparr>resp_status = 200,
                                                            resp_headers = json_headers,
                                                            resp_body = Report True
                                                              ''Gmail integration test completed successfully!''
                                                              \<lparr>stats_totalEmails = length msgs,
                                                               stats_processedEmails = processedCount,
                                                               stats_detectedNewsletters = length det,
                                                               stats_curatedPatternsCount =
                                                                 length curatedNewsletters,
                                                               report_detectedNewsletters = det,
                                                               report_curatedPatterns =
                                                                 map (\<lambda>n. (email_pattern n, name n))
                                                                   curatedNewsletters,
                                                               newsletterDetection =
                                                                 (length det > 0)\<rparr>\<rparr>, w5))))))))"

text \<open>
  The handler: the preflight answer, the \<^verbatim>\<open>try\<close> body, and the \<^verbatim>\<open>catch\<close> that turns any
  error thrown there into the 500 response.
\<close>

definition serve :: "http_request \<Rightarrow> world \<Rightarrow> http_response \<times> world" where
  "serve req w =
     (if req_method req = ''OPTIONS'' then
        (\<lparr>resp_status = 200, resp_headers = corsHeaders, resp_body = OkText\<rparr>, w)
      else
        (case handle req w of
           (Inr resp, w1) \<Rightarrow> (resp, w1)
         | (Inl e, w1) \<Rightarrow>
             (\<lparr>resp_status = 500, resp_headers = json_headers,
               resp_body = Failure False (message e)\<rparr>, log (ErrTestFunction e) w1)))"

text \<open>The console lines written by the \<^verbatim>\<open>catch\<close> of the loop, one per item that threw.\<close>

fun is_item_error :: "log_entry \<Rightarrow> bool" where
  "is_item_error (ErrProcessing i e) = True"
| "is_item_error l = False"

text \<open>What holds of an entry the loop appends to \<^verbatim>\<open>detectedNewsletters\<close>.\<close>

definition entry_ok :: "detected \<Rightarrow> bool" where
  "entry_ok d = (matched d \<and> email d = extractEmail (from_value d)
                 \<and> matchesNewsletterPattern (email d))"

text \<open>
  A response to a detail fetch that the loop reads to the end: its status is in 200..299 and
  the reads of its body do not throw. \<open>classified m r\<close> is what such a response adds to
  \<^verbatim>\<open>detectedNewsletters\<close> for the summary \<open>m\<close>: the entry of a matching address, or nothing.
\<close>

definition readable :: "api_body response \<Rightarrow> bool" where
  "readable r =
     (ok r \<and> (case message_fields (detail_value (json r)) of Inl e \<Rightarrow> False | Inr x \<Rightarrow> True))"

definition classified :: "GmailMessage \<Rightarrow> api_body response \<Rightarrow> detected list" where
  "classified m r =
     (case message_fields (detail_value (json r)) of
        Inl e \<Rightarrow> []
      | Inr (from_hdr, subject_hdr, dateHeader, emailAddress) \<Rightarrow>
          if matchesNewsletterPattern emailAddress
          then [\<lparr>messageId = gm_id m, from_value = from_hdr, email = emailAddress,
                 subject = subject_hdr, date = dateHeader, matched = True\<rparr>]
          else [])"

section \<open>Example worlds\<close>

text \<open>
  Concrete requests, responses and worlds on which the handler is run below: one user
  \<open>u1\<close> with the session token \<open>jwt1\<close>, and the scripted outcomes of the two hosts.
\<close>

definition example_request :: http_request where
  "example_request = \<lparr>req_method = ''POST'', authorization = Some ''Bearer jwt1''\<rparr>"

definition example_row :: auth_token_row where
  "example_row = \<lparr>user_id = ''u1'', access_token = ''old'', refresh_token = ''rt'', updated_at = 0\<rparr>"

definition example_client :: gmail_client where
  "example_client = createGmailClient ''u1'' ''old'' ''rt''"

definition example_world ::
  "auth_token_row list \<Rightarrow> token_body fetch_outcome list \<Rightarrow> api_body fetch_outcome list \<Rightarrow> world" where
  "example_world rows tok api =
     \<lparr>env = (\<lambda>k. None), clock = 1700000000000,
      sessions = (\<lambda>jwt. if jwt = ''jwt1'' then Some ''u1'' else None),
      auth_tokens = rows, newsletters_curated = [],
      token_endpoint = tok, gmail_api = api,
      sent = [], store_writes = [], console = []\<rparr>"

definition summary :: "string \<Rightarrow> GmailMessage" where
  "summary i = \<lparr>gm_id = i, threadId = i, payload = None\<rparr>"

definition listing :: "GmailMessage list \<Rightarrow> api_body response" where
  "listing ms = \<lparr>status = 200, statusText = ''OK'', json = ListBody (Some ms)\<rparr>"

definition detail :: "string \<Rightarrow> string \<Rightarrow> api_body response" where
  "detail i sender =
     \<lparr>status = 200, statusText = ''OK'',
      json = MessageBody (JObj [(''id'', JStr i), (''threadId'', JStr i),
               (''payload'', JObj [(''headers'',
                  JArr [JObj [(''name'', JStr ''Subject''), (''value'', JStr ''Hello'')],
                        JObj [(''name'', JStr ''From''), (''value'', JStr sender)]])])])\<rparr>"

definition failed :: "nat \<Rightarrow> string \<Rightarrow> api_body response" where
  "failed st txt = \<lparr>status = st, statusText = txt, json = ListBody None\<rparr>"

definition token_reply :: "nat \<Rightarrow> string \<Rightarrow> string \<Rightarrow> token_body response" where
  "token_reply st txt tok = \<lparr>status = st, statusText = txt, json = TokenBody tok\<rparr>"

definition world_refresh_ok :: world where
  "world_refresh_ok =
     example_world [example_row] [Responds (token_reply 200 ''OK'' ''new'')]
       [Responds (failed 401 ''Unauthorized''),
        Responds (detail ''m1'' ''Morning Brew <crew@morningbrew.com>'')]"

definition world_retry_fails :: world where
  "world_retry_fails =
     example_world [example_row] [Responds (token_reply 200 ''OK'' ''new'')]
       [Responds (failed 401 ''Unauthorized''), Responds (failed 403 ''Forbidden''),
        Responds (listing [])]"

definition world_refresh_rejected_on_list :: world where
  "world_refresh_rejected_on_list =
     example_world [example_row] [Responds (token_reply 400 ''Bad Request'' [])]
       [Responds (failed 401 ''Unauthorized'')]"

definition world_refresh_rejected_in_loop :: world where
  "world_refresh_rejected_in_loop =
     example_world [example_row] [Responds (token_reply 400 ''Bad Request'' [])]
       [Responds (listing [summary ''m1'']), Responds (failed 401 ''Unauthorized'')]"

definition world_refresh_rejected_mid_loop :: world where
  "world_refresh_rejected_mid_loop =
     example_world [example_row]
       [Responds (token_reply 200 ''OK'' ''new''), Responds (token_reply 400 ''Bad Request'' [])]
       [Responds (failed 401 ''Unauthorized''),
        Responds (listing [summary ''m1'', summary ''m2'', summary ''m3'']),
        Responds (failed 500 ''Internal Server Error''),
        Responds (failed 401 ''Unauthorized''),
        Responds (detail ''m3'' ''Morning Brew <crew@morningbrew.com>'')]"

definition world_rejected_at_item :: world where
  "world_rejected_at_item =
     example_world [example_row] [Responds (token_reply 400 ''Bad Request'' [])]
       [Responds (failed 401 ''Unauthorized''),
        Responds (detail ''m3'' ''Morning Brew <crew@morningbrew.com>'')]"

definition malformed :: "api_body response" where
  "malformed = \<lparr>status = 200, statusText = ''OK'', json = MessageBody JNull\<rparr>"

definition items_before :: "(string \<times> string) list" where
  "items_before =
     [(''m1'', ''Morning Brew <crew@morningbrew.com>''), (''m2'', ''Bob <bob@example.com>''),
      (''m3'', ''hello@thehustle.co''), (''m4'', ''Bob <bob@example.com>'')]"

definition items_after :: "(string \<times> string) list" where
  "items_after =
     [(''m6'', ''A Writer <writer@Substack.com>''), (''m7'', ''Bob <bob@example.com>''),
      (''m8'', ''Bob <bob@example.com>''), (''m9'', ''Bob <bob@example.com>''),
      (''m10'', ''Bob <bob@example.com>'')]"

definition summaries :: "(string \<times> string) list \<Rightarrow> GmailMessage list" where
  "summaries xs = map (\<lambda>(i, sender). summary i) xs"

definition details :: "(string \<times> string) list \<Rightarrow> api_body response list" where
  "details xs = map (\<lambda>(i, sender). detail i sender) xs"

definition world_item5 :: "api_body response \<Rightarrow> world" where
  "world_item5 bad =
     example_world [example_row] []
       (Responds (listing (summaries items_before @ summary ''m5'' # summaries items_after))
        # map Responds (details items_before) @ Responds bad
        # map Responds (details items_after) @ [])"

definition world_malformed_item :: world where
  "world_malformed_item =
     example_world [example_row] [] [Responds malformed, Responds (detail ''m6'' ''news@ghost.org'')]"

definition world_no_tokens :: world where
  "world_no_tokens = example_world [] [] []"

definition world_two_messages :: world where
  "world_two_messages =
     example_world [example_row] []
       [Responds (listing [summary ''m1'', summary ''m2'']),
        Responds (detail ''m1'' ''Morning Brew <Crew@MorningBrew.com>''),
        Responds (detail ''m2'' ''Bob <bob@example.com>'')]"

section \<open>Properties of the string methods\<close>

lemma endsWith_suffix: "endsWith s p \<longleftrightarrow> suffix p s"
proof
  assume "endsWith s p"
  then have "s = take (length s - length p) s @ p"
    by (metis append_take_drop_id endsWith_def)
  then show "suffix p s"
    by (rule suffixI)
next
  assume "suffix p s"
  then obtain q where "s = q @ p"
    by (auto simp: suffix_def)
  then show "endsWith s p"
    by (simp add: endsWith_def)
qed

lemma startsWith_prefix: "startsWith s p \<longleftrightarrow> prefix p s"
  by (metis startsWith_def append_eq_conv_conj prefix_def)

lemma startsWith_append [simp]: "startsWith (p @ d) p"
  by (simp add: startsWith_def)

lemma array_some_iff: "array_some f xs \<longleftrightarrow> (\<exists>x \<in> set xs. f x)"
  by (induction xs) auto

lemma matchesPattern_wildcard:
  "matchesPattern addr (''*@'' @ d) = endsWith (toLowerCase addr) (toLowerCase d)"
proof -
  have "startsWith (''*@'' @ d) ''*@''"
    by (rule startsWith_append)
  moreover have "substring (''*@'' @ d) 2 = d"
    by (simp add: substring_def)
  ultimately show ?thesis
    by (simp add: matchesPattern_def)
qed

lemma lower_literals:
  "toLowerCase ''notmail.beehiiv.com'' = ''notmail.beehiiv.com''"
  "toLowerCase ''mail.beehiiv.com'' = ''mail.beehiiv.com''"
  "toLowerCase ''@mail.beehiiv.com'' = ''@mail.beehiiv.com''"
  by (simp_all add: toLowerCase_def lower_char_def)

section \<open>Properties of the client and of the loop\<close>

lemma makeRequest_refreshed:
  assumes "gmail_api w = Responds r1 # Responds r2 # rest"
    and "status r1 = 401"
    and "token_endpoint w = Responds t # trest"
    and "ok t"
  shows "makeRequest url opts c w =
    (finish r2,
     c\<lparr>currentAccessToken := body_access_token (json t)\<rparr>,
     w\<lparr>gmail_api := rest, token_endpoint := trest,
       sent := sent w @
         [ApiRequest url (request_headers (currentAccessToken c) opts),
          TokenRequest (getenv w ''GOOGLE_CLIENT_ID'') (getenv w ''GOOGLE_CLIENT_SECRET'')
            (refreshToken c),
          ApiRequest url (request_headers (body_access_token (json t)) opts)],
       auth_tokens :=
         map (\<lambda>r. if user_id r = userId c
                  then r\<lparr>access_token := body_access_token (json t), updated_at := clock w\<rparr>
                  else r) (auth_tokens w),
       store_writes := store_writes w @
         [StoreWrite (userId c) (body_access_token (json t)) (clock w)],
       console := console w @ [LogTokenExpired, LogRefreshed]\<rparr>)"
  using assms
  by (simp add: makeRequest_def fetch_api_def refreshAccessToken_def fetch_token_def log_def
      store_update_def getenv_def Let_def)

lemma makeRequest_refresh_rejected:
  assumes "gmail_api w = Responds r1 # rest"
    and "status r1 = 401"
    and "token_endpoint w = Responds t # trest"
    and "\<not> ok t"
  shows "makeRequest url opts c w =
    (Inl RefreshFailure, c,
     w\<lparr>gmail_api := rest, token_endpoint := trest,
       sent := sent w @
         [ApiRequest url (request_headers (currentAccessToken c) opts),
          TokenRequest (getenv w ''GOOGLE_CLIENT_ID'') (getenv w ''GOOGLE_CLIENT_SECRET'')
            (refreshToken c)],
       console := console w @ [LogTokenExpired, ErrRefreshing RefreshFailure]\<rparr>)"
  using assms
  by (simp add: makeRequest_def fetch_api_def refreshAccessToken_def fetch_token_def log_def
      getenv_def Let_def)

lemma makeRequest_direct:
  assumes "gmail_api w = Responds r # rest"
    and "status r \<noteq> 401"
  shows "makeRequest url opts c w =
    (finish r, c,
     w\<lparr>gmail_api := rest,
       sent := sent w @ [ApiRequest url (request_headers (currentAccessToken c) opts)]\<rparr>)"
  using assms
  by (simp add: makeRequest_def fetch_api_def)

lemma request_headers_default:
  "request_headers tok [] = [(''Authorization'', ''Bearer '' @ tok), (''Content-Type'', ''application/json'')]"
  by (simp add: request_headers_def)

lemma makeRequest_item_errors:
  "filter is_item_error (console (snd (snd (makeRequest url opts c w))))
   = filter is_item_error (console w)"
  by (simp add: makeRequest_def fetch_api_def refreshAccessToken_def fetch_token_def log_def
      store_update_def Let_def
      split: list.splits fetch_outcome.splits prod.splits sum.splits)

lemma makeRequest_console:
  "\<exists>xs. console (snd (snd (makeRequest url opts c w))) = console w @ xs"
  by (simp add: makeRequest_def fetch_api_def refreshAccessToken_def fetch_token_def log_def
      store_update_def Let_def
      split: list.splits fetch_outcome.splits prod.splits sum.splits)

lemma message_fields_email:
  "message_fields v = Inr (f, s, d, a) \<Longrightarrow> a = extractEmail f"
  by (auto simp: message_fields_def split: sum.splits jsval.splits)

text \<open>
  One turn of the loop, whatever the tail and the accumulators: the item is either logged
  by the \<^verbatim>\<open>catch\<close>, or counted, with at most one entry appended.
\<close>

lemma process_messages_step:
  "(\<exists>e c1 w1.
      (\<forall>ms det n. process_messages (m # ms) c w det n
         = process_messages ms c1 (log (ErrProcessing (gm_id m) e) w1) det n)
      \<and> filter is_item_error (console w1) = filter is_item_error (console w)
      \<and> (\<exists>xs. console w1 = console w @ xs))
   \<or> (\<exists>new c1 w1.
      (\<forall>ms det n. process_messages (m # ms) c w det n
         = process_messages ms c1 w1 (det @ new) (Suc n))
      \<and> list_all entry_ok new \<and> length new \<le> 1
      \<and> filter is_item_error (console w1) = filter is_item_error (console w)
      \<and> (\<exists>xs. console w1 = console w @ xs))"
proof -
  obtain res c1 w1 where g: "getMessage (gm_id m) c w = (res, c1, w1)"
    by (cases "getMessage (gm_id m) c w") auto
  have f: "filter is_item_error (console w1) = filter is_item_error (console w)"
    using makeRequest_item_errors [of "MessageUrl (gm_id m)" "[]" c w] g
    by (simp add: getMessage_def)
  have x: "\<exists>xs. console w1 = console w @ xs"
    using makeRequest_console [of "MessageUrl (gm_id m)" "[]" c w] g
    by (simp add: getMessage_def)
  show ?thesis
  proof (cases res)
    case (Inl e)
    then have "\<forall>ms det n. process_messages (m # ms) c w det n
         = process_messages ms c1 (log (ErrProcessing (gm_id m) e) w1) det n"
      using g by simp
    with f x show ?thesis
      by blast
  next
    case (Inr b)
    show ?thesis
    proof (cases "message_fields (detail_value b)")
      case (Inl e)
      then have "\<forall>ms det n. process_messages (m # ms) c w det n
           = process_messages ms c1 (log (ErrProcessing (gm_id m) e) w1) det n"
        using g Inr by simp
      with f x show ?thesis
        by blast
    next
      case r: (Inr fields)
      obtain fr su da a where fields: "fields = (fr, su, da, a)"
        by (cases fields) auto
      let ?d = "\<lparr>messageId = gm_id m, from_value = fr, email = a, subject = su, date = da,
                 matched = True\<rparr>"
      let ?new = "if matchesNewsletterPattern a then [?d] else []"
      have "a = extractEmail fr"
        using r fields message_fields_email by blast
      then have "list_all entry_ok ?new" "length ?new \<le> 1"
        by (simp_all add: entry_ok_def)
      moreover have "\<forall>ms det n. process_messages (m # ms) c w det n
           = process_messages ms c1 w1 (det @ ?new) (Suc n)"
        using g Inr r fields by simp
      ultimately show ?thesis
        using f x by blast
    qed
  qed
qed

lemma process_messages_accounting:
  "case process_messages ms c w det n of
     ((det', n'), c', w') \<Rightarrow>
       n' + length (filter is_item_error (console w'))
       = n + length ms + length (filter is_item_error (console w))"
proof (induction ms arbitrary: c w det n)
  case Nil
  show ?case by simp
next
  case (Cons m ms)
  from process_messages_step [of m c w] show ?case
  proof (elim disjE exE conjE)
    fix e c1 w1 xs
    assume s: "\<forall>ms det n. process_messages (m # ms) c w det n
         = process_messages ms c1 (log (ErrProcessing (gm_id m) e) w1) det n"
      and f: "filter is_item_error (console w1) = filter is_item_error (console w)"
    show ?thesis
      using Cons.IH [where c = c1 and w = "log (ErrProcessing (gm_id m) e) w1" and det = det and n = n]
        s f
      by (simp add: log_def split: prod.splits)
  next
    fix new c1 w1 xs
    assume s: "\<forall>ms det n. process_messages (m # ms) c w det n
         = process_messages ms c1 w1 (det @ new) (Suc n)"
      and f: "filter is_item_error (console w1) = filter is_item_error (console w)"
    show ?thesis
      using Cons.IH [where c = c1 and w = w1 and det = "det @ new" and n = "Suc n"] s f
      by (simp split: prod.splits)
  qed
qed

lemma process_messages_detected:
  "case process_messages ms c w det n of
     ((det', n'), c', w') \<Rightarrow>
       (\<exists>new. det' = det @ new \<and> list_all entry_ok new \<and> n + length new \<le> n')
       \<and> n' \<le> n + length ms"
proof (induction ms arbitrary: c w det n)
  case Nil
  show ?case by simp
next
  case (Cons m ms)
  from process_messages_step [of m c w] show ?case
  proof (elim disjE exE conjE)
    fix e c1 w1 xs
    assume s: "\<forall>ms det n. process_messages (m # ms) c w det n
         = process_messages ms c1 (log (ErrProcessing (gm_id m) e) w1) det n"
    show ?thesis
      using Cons.IH [where c = c1 and w = "log (ErrProcessing (gm_id m) e) w1" and det = det and n = n]
        s
      by (auto split: prod.splits)
  next
    fix new c1 w1 xs
    assume s: "\<forall>ms det n. process_messages (m # ms) c w det n
         = process_messages ms c1 w1 (det @ new) (Suc n)"
      and e: "list_all entry_ok new" and l: "length new \<le> 1"
    obtain det' n' c' w' where
      r: "process_messages ms c1 w1 (det @ new) (Suc n) = ((det', n'), c', w')"
      by (metis prod.exhaust)
    from Cons.IH [where c = c1 and w = w1 and det = "det @ new" and n = "Suc n"] r
    obtain more where more: "det' = (det @ new) @ more" "list_all entry_ok more"
      "Suc n + length more \<le> n'" "n' \<le> Suc n + length ms"
      by auto
    have p: "process_messages (m # ms) c w det n = ((det', n'), c', w')"
      using s r by simp
    have "det' = det @ (new @ more) \<and> list_all entry_ok (new @ more)
               \<and> n + length (new @ more) \<le> n'"
      using more e l by simp
    then have "\<exists>new. det' = det @ new \<and> list_all entry_ok new \<and> n + length new \<le> n'"
      by blast
    then show ?thesis
      using p more(4) by simp
  qed
qed

lemma serve_report:
  assumes "req_method req \<noteq> ''OPTIONS''"
    and "authorization req = Some h"
    and "h \<noteq> []"
    and "sessions w (replace_first ''Bearer '' [] h) = Some uid"
    and "filter (\<lambda>r. user_id r = uid) (auth_tokens w) = [row]"
    and "gmail_api w = Responds l # rest"
    and "ok l"
    and "messages (json l) = Some msgs"
  shows "serve req w =
    (case process_messages (take 10 msgs)
            (createGmailClient uid (access_token row) (refresh_token row))
            (w\<lparr>gmail_api := rest,
               sent := sent w @
                 [ApiRequest (MessagesUrl (''after:'' @ show_int ((clock w - 86400000) div 1000)) 20)
                    (request_headers (access_token row) [])],
               console := console w @ [LogTesting uid, LogFetching, LogFound (length msgs)]\<rparr>)
            [] 0 of
       ((det, processedCount), c5, w5) \<Rightarrow>
         (\<lparr>resp_status = 200, resp_headers = json_headers,
           resp_body = Report True ''Gmail integration test completed successfully!''
             \<lparr>stats_totalEmails = length msgs,
              stats_processedEmails = processedCount,
              stats_detectedNewsletters = length det,
              stats_curatedPatternsCount = length (filter is_active (newsletters_curated w5)),
              report_detectedNewsletters = det,
              report_curatedPatterns =
                map (\<lambda>n. (email_pattern n, name n)) (filter is_active (newsletters_curated w5)),
              newsletterDetection = (length det > 0)\<rparr>\<rparr>, w5))"
proof -
  from assms(7) have n401: "status l \<noteq> 401"
    by (simp add: ok_def)
  have lm: "listMessages q k (createGmailClient uid (access_token row) (refresh_token row))
              (w\<lparr>console := console w @ [LogTesting uid, LogFetching]\<rparr>)
            = (Inr (json l), createGmailClient uid (access_token row) (refresh_token row),
               w\<lparr>gmail_api := rest,
                 sent := sent w @ [ApiRequest (MessagesUrl q k) (request_headers (access_token row) [])],
                 console := console w @ [LogTesting uid, LogFetching]\<rparr>)" for q k
    using assms(6,7) n401
    by (simp add: listMessages_def makeRequest_def fetch_api_def log_def finish_def
        createGmailClient_def)
  show ?thesis
    using assms(1-5,8)
    by (simp add: serve_def handle_def Let_def lm log_def split: prod.splits)
qed


lemma serve_loop:
  assumes "req_method req \<noteq> ''OPTIONS''"
    and "authorization req = Some h"
    and "h \<noteq> []"
    and "sessions w (replace_first ''Bearer '' [] h) = Some uid"
    and "filter (\<lambda>r. user_id r = uid) (auth_tokens w) = [row]"
    and "listMessages (''after:'' @ show_int ((clock w - 86400000) div 1000)) 20
           (createGmailClient uid (access_token row) (refresh_token row))
           (log LogFetching (log (LogTesting uid) w))
         = (Inr body, c3, w3)"
    and "messages body = Some msgs"
  shows "serve req w =
    (case process_messages (take 10 msgs) c3 (log (LogFound (length msgs)) w3) [] 0 of
       ((det, processedCount), c5, w5) \<Rightarrow>
         (\<lparr>resp_status = 200, resp_headers = json_headers,
           resp_body = Report True ''Gmail integration test completed successfully!''
             \<lparr>stats_totalEmails = length msgs,
              stats_processedEmails = processedCount,
              stats_detectedNewsletters = length det,
              stats_curatedPatternsCount = length (filter is_active (newsletters_curated w5)),
              report_detectedNewsletters = det,
              report_curatedPatterns =
                map (\<lambda>n. (email_pattern n, name n)) (filter is_active (newsletters_curated w5)),
              newsletterDetection = (length det > 0)\<rparr>\<rparr>, w5))"
proof -
  have c: "clock (log (LogTesting uid) w) = clock w"
    "auth_tokens (log (LogTesting uid) w) = auth_tokens w"
    by (simp_all add: log_def)
  show ?thesis
    using assms
    by (simp add: serve_def handle_def Let_def c split: prod.splits)
qed

lemma process_messages_append:
  "process_messages (xs @ ys) c w det n =
     (case process_messages xs c w det n of
        ((det1, n1), c1, w1) \<Rightarrow> process_messages ys c1 w1 det1 n1)"
proof (induction xs arbitrary: c w det n)
  case Nil
  show ?case by simp
next
  case (Cons x xs)
  show ?case
    by (simp add: Cons.IH split: prod.splits sum.splits)
qed

lemma getMessage_direct:
  assumes "gmail_api w = Responds r # rest" and "status r \<noteq> 401"
  shows "getMessage i c w =
    (finish r, c,
     w\<lparr>gmail_api := rest,
       sent := sent w @ [ApiRequest (MessageUrl i) (request_headers (currentAccessToken c) [])]\<rparr>)"
  using assms by (simp add: getMessage_def makeRequest_direct)

lemma readable_not_401: "readable r \<Longrightarrow> status r \<noteq> 401"
  by (simp add: readable_def ok_def)

lemma step_readable:
  assumes "gmail_api w = Responds r # rest" and "readable r"
  shows "process_messages (m # ms) c w det n =
     process_messages ms c
       (w\<lparr>gmail_api := rest,
          sent := sent w @
            [ApiRequest (MessageUrl (gm_id m)) (request_headers (currentAccessToken c) [])]\<rparr>)
       (det @ classified m r) (Suc n)"
proof -
  from assms(2) obtain fr su da a where
    f: "message_fields (detail_value (json r)) = Inr (fr, su, da, a)" and o: "ok r"
    by (auto simp: readable_def split: sum.splits)
  have g: "getMessage (gm_id m) c w =
    (Inr (json r), c,
     w\<lparr>gmail_api := rest,
       sent := sent w @
         [ApiRequest (MessageUrl (gm_id m)) (request_headers (currentAccessToken c) [])]\<rparr>)"
    using getMessage_direct [OF assms(1) readable_not_401 [OF assms(2)]] o
    by (simp add: finish_def)
  show ?thesis
    by (simp add: g f classified_def)
qed

lemma step_failed:
  assumes "gmail_api w = Responds bad # rest"
    and "status bad \<noteq> 401"
    and "\<not> ok bad \<and> e = ApiFailure (status bad) (statusText bad)
         \<or> ok bad \<and> message_fields (detail_value (json bad)) = Inl e"
  shows "process_messages (m # ms) c w det n =
     process_messages ms c
       (log (ErrProcessing (gm_id m) e)
         (w\<lparr>gmail_api := rest,
            sent := sent w @
              [ApiRequest (MessageUrl (gm_id m)) (request_headers (currentAccessToken c) [])]\<rparr>))
       det n"
  using assms(3) getMessage_direct [OF assms(1,2), of "gm_id m" c]
  by (auto simp: finish_def)

lemma process_messages_readable:
  assumes "length oks = length ms"
    and "list_all readable oks"
    and "gmail_api w = map Responds oks @ rest"
  shows "\<exists>w'. process_messages ms c w det n
             = ((det @ concat (map2 classified ms oks), n + length ms), c, w')
           \<and> gmail_api w' = rest \<and> console w' = console w
           \<and> token_endpoint w' = token_endpoint w
           \<and> newsletters_curated w' = newsletters_curated w"
  using assms
proof (induction ms arbitrary: oks w det n)
  case Nil
  then show ?case by simp
next
  case (Cons m ms)
  then obtain r oks' where oks: "oks = r # oks'"
    by (cases oks) auto
  with Cons.prems have r: "readable r" "gmail_api w = Responds r # map Responds oks' @ rest"
    by simp_all
  let ?w1 = "w\<lparr>gmail_api := map Responds oks' @ rest,
               sent := sent w @ [ApiRequest (MessageUrl (gm_id m))
                                   (request_headers (currentAccessToken c) [])]\<rparr>"
  have ih: "length oks' = length ms" "list_all readable oks'"
    "gmail_api ?w1 = map Responds oks' @ rest"
    using Cons.prems oks by simp_all
  from Cons.IH [OF ih, where det = "det @ classified m r" and n = "Suc n"]
  obtain w' where "process_messages ms c ?w1 (det @ classified m r) (Suc n)
             = (((det @ classified m r) @ concat (map2 classified ms oks'), Suc n + length ms), c, w')"
    "gmail_api w' = rest" "console w' = console ?w1" "token_endpoint w' = token_endpoint ?w1"
    "newsletters_curated w' = newsletters_curated ?w1"
    by blast
  then show ?case
    by (simp add: step_readable [OF r(2,1)] oks del: process_messages.simps)
qed

lemma process_messages_one_failure:
  assumes "length oks1 = length ms1"
    and "length oks2 = length ms2"
    and "list_all readable oks1"
    and "list_all readable oks2"
    and "status bad \<noteq> 401"
    and "\<not> ok bad \<and> e = ApiFailure (status bad) (statusText bad)
         \<or> ok bad \<and> message_fields (detail_value (json bad)) = Inl e"
    and "gmail_api w = map Responds oks1 @ Responds bad # map Responds oks2 @ rest"
  shows "\<exists>w'. process_messages (ms1 @ m # ms2) c w det n
             = ((det @ concat (map2 classified (ms1 @ ms2) (oks1 @ oks2)),
                 n + length ms1 + length ms2), c, w')
           \<and> console w' = console w @ [ErrProcessing (gm_id m) e]
           \<and> newsletters_curated w' = newsletters_curated w"
proof -
  let ?d1 = "det @ concat (map2 classified ms1 oks1)"
  from process_messages_readable [OF assms(1,3,7), of c det n]
  obtain w1 where
    p1: "process_messages ms1 c w det n = ((?d1, n + length ms1), c, w1)"
    and w1: "gmail_api w1 = Responds bad # map Responds oks2 @ rest" "console w1 = console w"
      "newsletters_curated w1 = newsletters_curated w"
    by blast
  let ?w2 = "log (ErrProcessing (gm_id m) e)
               (w1\<lparr>gmail_api := map Responds oks2 @ rest,
                   sent := sent w1 @ [ApiRequest (MessageUrl (gm_id m))
                                        (request_headers (currentAccessToken c) [])]\<rparr>)"
  note st = step_failed [OF w1(1) assms(5,6), of m ms2 c ?d1 "n + length ms1"]
  have "gmail_api ?w2 = map Responds oks2 @ rest"
    by (simp add: log_def)
  from process_messages_readable [OF assms(2,4) this, of c ?d1 "n + length ms1"]
  obtain w3 where
    p2: "process_messages ms2 c ?w2 ?d1 (n + length ms1)
           = ((?d1 @ concat (map2 classified ms2 oks2), n + length ms1 + length ms2), c, w3)"
    and w3: "console w3 = console ?w2" "newsletters_curated w3 = newsletters_curated ?w2"
    by blast
  have z: "concat (map2 classified (ms1 @ ms2) (oks1 @ oks2))
           = concat (map2 classified ms1 oks1) @ concat (map2 classified ms2 oks2)"
    using assms(1) by simp
  have "process_messages (ms1 @ m # ms2) c w det n
        = ((det @ concat (map2 classified (ms1 @ ms2) (oks1 @ oks2)),
            n + length ms1 + length ms2), c, w3)"
    using p1 st p2 by (simp add: process_messages_append z del: process_messages.simps)
  moreover have "console w3 = console w @ [ErrProcessing (gm_id m) e]"
    "newsletters_curated w3 = newsletters_curated w"
    using w3 w1(2,3) by (simp_all add: log_def)
  ultimately show ?thesis
    by blast
qed

lemma process_messages_console:
  "\<exists>xs. console (snd (snd (process_messages ms c w det n))) = console w @ xs"
proof (induction ms arbitrary: c w det n)
  case Nil
  show ?case by simp
next
  case (Cons m ms)
  from process_messages_step [of m c w] show ?case
  proof (elim disjE exE conjE)
    fix e c1 w1 xs
    assume s: "\<forall>ms det n. process_messages (m # ms) c w det n
         = process_messages ms c1 (log (ErrProcessing (gm_id m) e) w1) det n"
      and x: "console w1 = console w @ xs"
    from Cons.IH [where c = c1 and w = "log (ErrProcessing (gm_id m) e) w1" and det = det and n = n]
    obtain ys where "console (snd (snd (process_messages ms c1
        (log (ErrProcessing (gm_id m) e) w1) det n))) = console w @ xs @ ErrProcessing (gm_id m) e # ys"
      by (auto simp: log_def x)
    then show ?thesis
      using s by simp
  next
    fix new c1 w1 xs
    assume s: "\<forall>ms det n. process_messages (m # ms) c w det n
         = process_messages ms c1 w1 (det @ new) (Suc n)"
      and x: "console w1 = console w @ xs"
    from Cons.IH [where c = c1 and w = w1 and det = "det @ new" and n = "Suc n"]
    obtain ys where "console (snd (snd (process_messages ms c1 w1 (det @ new) (Suc n))))
        = console w @ xs @ ys"
      by (auto simp: x)
    then show ?thesis
      using s by simp
  qed
qed

lemma serve_report_origin:
  assumes "resp_body (fst (serve req w)) = Report s msg rep"
  shows "\<exists>msgs c1 w1 c' w'.
           process_messages (take 10 msgs) c1 w1 [] 0
             = ((report_detectedNewsletters rep, stats_processedEmails rep), c', w')
           \<and> stats_detectedNewsletters rep = length (report_detectedNewsletters rep)
           \<and> stats_totalEmails rep = length msgs"
  using assms
  by (auto simp: serve_def handle_def Let_def
      split: if_splits option.splits prod.splits sum.splits) blast


lemma serve_refresh_failure_on_list:
  assumes "req_method req \<noteq> ''OPTIONS''"
    and "authorization req = Some h"
    and "h \<noteq> []"
    and "sessions w (replace_first ''Bearer '' [] h) = Some uid"
    and "filter (\<lambda>r. user_id r = uid) (auth_tokens w) = [row]"
    and "token_endpoint w = Responds t # trest"
    and "\<not> ok t"
    and "gmail_api w = Responds r1 # rest"
    and "status r1 = 401"
  shows "fst (serve req w) =
           \<lparr>resp_status = 500, resp_headers = json_headers,
            resp_body = Failure False ''Failed to refresh token''\<rparr>"
proof -
  let ?w2 = "w\<lparr>console := console w @ [LogTesting uid, LogFetching]\<rparr>"
  let ?q = "''after:'' @ show_int ((clock w - 86400000) div 1000)"
  let ?c = "createGmailClient uid (access_token row) (refresh_token row)"
  obtain res c' w' where lm: "listMessages ?q 20 ?c ?w2 = (res, c', w')"
    by (metis prod.exhaust)
  have "res = Inl RefreshFailure"
    using makeRequest_refresh_rejected [of ?w2 r1 rest t trest "MessagesUrl ?q 20" "[]" ?c]
      assms(6-9) lm
    by (simp add: listMessages_def)
  then show ?thesis
    using assms(1-5) lm
    by (simp add: serve_def handle_def Let_def log_def)
qed

lemma example_client_fields:
  "currentAccessToken example_client = ''old''"
  "refreshToken example_client = ''rt''"
  "userId example_client = ''u1''"
  by (simp_all add: example_client_def createGmailClient_def)

lemma example_valid:
  "req_method example_request \<noteq> ''OPTIONS''"
  "authorization example_request = Some ''Bearer jwt1''"
  "''Bearer jwt1'' \<noteq> []"
  "sessions (example_world rows tok api) (replace_first ''Bearer '' [] ''Bearer jwt1'') = Some ''u1''"
  "filter (\<lambda>r. user_id r = ''u1'') [example_row] = [example_row]"
  by (simp_all add: example_request_def example_world_def example_row_def startsWith_def)

section \<open>The matcher: claims\<close>

text \<open>
  C1. For every address and every wildcard pattern \<open>*@d\<close>, the matcher accepts the address
  for that pattern exactly when the lowercased address ends with the lowercased \<open>d\<close>, the
  text after \<open>*@\<close> (no \<open>@\<close> is required at the boundary). In particular the address
  \<open>notmail.beehiiv.com\<close> is accepted for \<open>*@mail.beehiiv.com\<close>.
\<close>

theorem C1_wildcard_suffix:
  "matchesPattern addr (''*@'' @ d) = suffix (toLowerCase d) (toLowerCase addr)
   \<and> matchesPattern ''notmail.beehiiv.com'' ''*@mail.beehiiv.com''"
proof
  show "matchesPattern addr (''*@'' @ d) = suffix (toLowerCase d) (toLowerCase addr)"
    by (simp only: matchesPattern_wildcard endsWith_suffix)
next
  have "matchesPattern ''notmail.beehiiv.com'' (''*@'' @ ''mail.beehiiv.com'')
        = endsWith ''notmail.beehiiv.com'' ''mail.beehiiv.com''"
    by (simp only: matchesPattern_wildcard lower_literals)
  then show "matchesPattern ''notmail.beehiiv.com'' ''*@mail.beehiiv.com''"
    by (simp add: endsWith_def)
qed

text \<open>
  C2 (as amended). For every address and every wildcard pattern \<open>*@domain\<close>, the matcher
  accepts the address only when its lowercased form ends with the lowercased text after
  \<open>*@\<close>, which does not include the \<open>@\<close>: the bare domain text itself is an accepted
  address. Whenever the lowercased address does end with \<open>@domain\<close>, it is accepted.
\<close>

theorem C2_wildcard_tests_bare_domain:
  "(matchesPattern addr (''*@'' @ d) \<longrightarrow> suffix (toLowerCase d) (toLowerCase addr))
   \<and> matchesPattern d (''*@'' @ d)
   \<and> (suffix (toLowerCase (''@'' @ d)) (toLowerCase addr) \<longrightarrow> matchesPattern addr (''*@'' @ d))"
proof (intro conjI impI)
  assume "matchesPattern addr (''*@'' @ d)"
  then show "suffix (toLowerCase d) (toLowerCase addr)"
    by (simp only: matchesPattern_wildcard endsWith_suffix)
next
  show "matchesPattern d (''*@'' @ d)"
    by (simp only: matchesPattern_wildcard endsWith_suffix suffix_order.refl)
next
  assume "suffix (toLowerCase (''@'' @ d)) (toLowerCase addr)"
  moreover have "suffix (toLowerCase d) (toLowerCase (''@'' @ d))"
    by (simp add: toLowerCase_def suffix_def)
  ultimately have "suffix (toLowerCase d) (toLowerCase addr)"
    by (rule suffix_order.trans [rotated])
  then show "matchesPattern addr (''*@'' @ d)"
    by (simp only: matchesPattern_wildcard endsWith_suffix)
qed

theorem C2_wildcard_tests_bare_domain_witness:
  "matchesPattern ''a@Mail.Beehiiv.com'' ''*@mail.beehiiv.com''
   \<and> suffix (toLowerCase ''mail.beehiiv.com'') (toLowerCase ''a@Mail.Beehiiv.com'')
   \<and> suffix (toLowerCase ''@mail.beehiiv.com'') (toLowerCase ''a@Mail.Beehiiv.com'')"
proof -
  have s: "suffix (toLowerCase (''@'' @ ''mail.beehiiv.com'')) (toLowerCase ''a@Mail.Beehiiv.com'')"
    by code_simp
  have m: "matchesPattern ''a@Mail.Beehiiv.com'' (''*@'' @ ''mail.beehiiv.com'')"
    using C2_wildcard_tests_bare_domain [of "''a@Mail.Beehiiv.com''" "''mail.beehiiv.com''"] s
    by blast
  have "suffix (toLowerCase ''mail.beehiiv.com'') (toLowerCase ''a@Mail.Beehiiv.com'')"
    using C2_wildcard_tests_bare_domain [of "''a@Mail.Beehiiv.com''" "''mail.beehiiv.com''"] m
    by blast
  with s m show ?thesis
    by simp
qed

text \<open>
  The claim as written fails: \<open>notmail.beehiiv.com\<close> is accepted for
  \<open>*@mail.beehiiv.com\<close> although its lowercased form does not end with
  \<open>@mail.beehiiv.com\<close>.
\<close>

theorem C2_at_boundary_counterexample:
  "matchesPattern ''notmail.beehiiv.com'' ''*@mail.beehiiv.com''
   \<and> \<not> endsWith (toLowerCase ''notmail.beehiiv.com'') (toLowerCase ''@mail.beehiiv.com'')"
proof
  have "matchesPattern ''notmail.beehiiv.com'' (''*@'' @ ''mail.beehiiv.com'')
        = endsWith ''notmail.beehiiv.com'' ''mail.beehiiv.com''"
    by (simp only: matchesPattern_wildcard lower_literals)
  then show "matchesPattern ''notmail.beehiiv.com'' ''*@mail.beehiiv.com''"
    by (simp add: endsWith_def)
next
  show "\<not> endsWith (toLowerCase ''notmail.beehiiv.com'') (toLowerCase ''@mail.beehiiv.com'')"
    by (simp add: lower_literals endsWith_def)
qed

text \<open>
  C7. For every address and every exact pattern \<open>p\<close> (one that does not start with \<open>*@\<close>),
  the matcher accepts the address for \<open>p\<close> exactly when the lowercased address equals the
  lowercased \<open>p\<close>: equality of the whole strings, never of a part.
\<close>

theorem C7_exact_pattern_equality:
  "\<not> startsWith p ''*@'' \<Longrightarrow> matchesPattern addr p = (toLowerCase addr = toLowerCase p)"
  by (simp add: matchesPattern_def)

theorem C7_exact_pattern_equality_witness:
  "\<not> startsWith ''crew@morningbrew.com'' ''*@''
   \<and> matchesPattern ''Crew@MorningBrew.COM'' ''crew@morningbrew.com''
   \<and> \<not> matchesPattern ''the.crew@morningbrew.com'' ''crew@morningbrew.com''"
proof -
  have h: "\<not> startsWith ''crew@morningbrew.com'' ''*@''"
    by (simp add: startsWith_def)
  have l: "toLowerCase ''Crew@MorningBrew.COM'' = toLowerCase ''crew@morningbrew.com''"
    by code_simp
  have "matchesPattern ''Crew@MorningBrew.COM'' ''crew@morningbrew.com''"
    using C7_exact_pattern_equality [OF h, of "''Crew@MorningBrew.COM''"] l
    by simp
  moreover have "\<not> matchesPattern ''the.crew@morningbrew.com'' ''crew@morningbrew.com''"
    using C7_exact_pattern_equality [OF h, of "''the.crew@morningbrew.com''"]
    by (simp add: toLowerCase_def)
  ultimately show ?thesis
    using h by simp
qed

text \<open>
  C8. For every address and every pattern list, the matcher returns true exactly when some
  pattern of the list matches the address; on the empty list it returns false; and two
  lists with the same patterns in different orders give the same answer. The source's
  function is the matcher on its constant list.
\<close>

theorem C8_any_pattern:
  "matchesPatterns ps addr = (\<exists>p \<in> set ps. matchesPattern addr p)
   \<and> \<not> matchesPatterns [] addr
   \<and> (mset ps = mset qs \<longrightarrow> matchesPatterns ps addr = matchesPatterns qs addr)
   \<and> matchesNewsletterPattern addr = (\<exists>p \<in> set NEWSLETTER_PATTERNS. matchesPattern addr p)"
proof (intro conjI impI)
  show "matchesPatterns ps addr = (\<exists>p \<in> set ps. matchesPattern addr p)"
    by (simp add: matchesPatterns_def array_some_iff)
next
  show "\<not> matchesPatterns [] addr"
    by (simp add: matchesPatterns_def)
next
  assume "mset ps = mset qs"
  then have "set ps = set qs"
    by (rule mset_eq_setD)
  then show "matchesPatterns ps addr = matchesPatterns qs addr"
    by (simp add: matchesPatterns_def array_some_iff)
next
  show "matchesNewsletterPattern addr = (\<exists>p \<in> set NEWSLETTER_PATTERNS. matchesPattern addr p)"
    by (simp add: matchesNewsletterPattern_def matchesPatterns_def array_some_iff)
qed

theorem C8_any_pattern_witness:
  "mset [''hello@thehustle.co'', ''*@ghost.org''] = mset [''*@ghost.org'', ''hello@thehustle.co'']
   \<and> matchesPatterns [''hello@thehustle.co'', ''*@ghost.org''] ''News@Ghost.org''
   \<and> matchesPatterns [''*@ghost.org'', ''hello@thehustle.co''] ''News@Ghost.org''
   \<and> matchesPattern ''News@Ghost.org'' ''*@ghost.org''
   \<and> ''*@ghost.org'' \<in> set [''hello@thehustle.co'', ''*@ghost.org'']"
proof -
  have p: "mset [''hello@thehustle.co'', ''*@ghost.org''] = mset [''*@ghost.org'', ''hello@thehustle.co'']"
    by simp
  have m: "matchesPattern ''News@Ghost.org'' ''*@ghost.org''"
    by code_simp
  have i: "''*@ghost.org'' \<in> set [''hello@thehustle.co'', ''*@ghost.org'']"
    by simp
  have a: "matchesPatterns [''hello@thehustle.co'', ''*@ghost.org''] ''News@Ghost.org''"
    using C8_any_pattern [of "[''hello@thehustle.co'', ''*@ghost.org'']" "''News@Ghost.org''"] m i
    by blast
  have "matchesPatterns [''*@ghost.org'', ''hello@thehustle.co''] ''News@Ghost.org''"
    using C8_any_pattern [of "[''hello@thehustle.co'', ''*@ghost.org'']" "''News@Ghost.org''"
        "[''*@ghost.org'', ''hello@thehustle.co'']"] p a
    by blast
  with p m i a show ?thesis
    by simp
qed

section \<open>The client: claims\<close>

text \<open>
  C3. When a wrapped call (\<^verbatim>\<open>listMessages\<close> or \<^verbatim>\<open>getMessage\<close>) receives a 401, the token
  endpoint answers the refresh with a success status, and the retried call receives a 2xx
  response, the call returns the body of that response, the retry carries the new access
  token as its bearer credential (after the first request and the one token request), and
  exactly one write, of the new token with the clock's timestamp for the client's user, is
  added to the credential store.
\<close>

theorem C3_refresh_then_success:
  assumes "call = listMessages q n \<and> url = MessagesUrl q n
           \<or> call = getMessage i \<and> url = MessageUrl i"
    and "gmail_api w = Responds r1 # Responds r2 # rest"
    and "status r1 = 401"
    and "token_endpoint w = Responds t # trest"
    and "ok t"
    and "ok r2"
  shows "case call c w of (result, c', w') \<Rightarrow>
           result = Inr (json r2)
           \<and> currentAccessToken c' = body_access_token (json t)
           \<and> sent w' = sent w @
                [ApiRequest url [(''Authorization'', ''Bearer '' @ currentAccessToken c),
                                 (''Content-Type'', ''application/json'')],
                 TokenRequest (getenv w ''GOOGLE_CLIENT_ID'') (getenv w ''GOOGLE_CLIENT_SECRET'')
                   (refreshToken c),
                 ApiRequest url [(''Authorization'', ''Bearer '' @ body_access_token (json t)),
                                 (''Content-Type'', ''application/json'')]]
           \<and> store_writes w' = store_writes w @
                [StoreWrite (userId c) (body_access_token (json t)) (clock w)]"
proof -
  from assms(1) have "call c w = makeRequest url [] c w"
    by (auto simp: listMessages_def getMessage_def)
  then show ?thesis
    using assms(6)
    by (simp add: makeRequest_refreshed [OF assms(2-5)] finish_def request_headers_default)
qed

theorem C3_refresh_then_success_witness:
  "fst (getMessage ''m1'' example_client world_refresh_ok)
     = Inr (json (detail ''m1'' ''Morning Brew <crew@morningbrew.com>''))
   \<and> sent (snd (snd (getMessage ''m1'' example_client world_refresh_ok)))
     = [ApiRequest (MessageUrl ''m1'')
          [(''Authorization'', ''Bearer old''), (''Content-Type'', ''application/json'')],
        TokenRequest [] [] ''rt'',
        ApiRequest (MessageUrl ''m1'')
          [(''Authorization'', ''Bearer new''), (''Content-Type'', ''application/json'')]]
   \<and> store_writes (snd (snd (getMessage ''m1'' example_client world_refresh_ok)))
     = [StoreWrite ''u1'' ''new'' 1700000000000]"
proof -
  let ?w = world_refresh_ok
  have h1: "getMessage ''m1'' = listMessages [] 0 \<and> MessageUrl ''m1'' = MessagesUrl [] 0
            \<or> getMessage ''m1'' = getMessage ''m1'' \<and> MessageUrl ''m1'' = MessageUrl ''m1''"
    by simp
  have h2: "gmail_api ?w = Responds (failed 401 ''Unauthorized'')
              # Responds (detail ''m1'' ''Morning Brew <crew@morningbrew.com>'') # []"
    by (simp add: world_refresh_ok_def example_world_def)
  have h3: "status (failed 401 ''Unauthorized'') = 401"
    by (simp add: failed_def)
  have h4: "token_endpoint ?w = Responds (token_reply 200 ''OK'' ''new'') # []"
    by (simp add: world_refresh_ok_def example_world_def)
  have h5: "ok (token_reply 200 ''OK'' ''new'')"
    by (simp add: ok_def token_reply_def)
  have h6: "ok (detail ''m1'' ''Morning Brew <crew@morningbrew.com>'')"
    by (simp add: ok_def detail_def)
  have e: "getenv ?w k = []" "sent ?w = []" "store_writes ?w = []" "clock ?w = 1700000000000" for k
    by (simp_all add: world_refresh_ok_def example_world_def getenv_def)
  have t: "body_access_token (json (token_reply 200 ''OK'' ''new'')) = ''new''"
    by (simp add: token_reply_def)
  from C3_refresh_then_success [OF h1 h2 h3 h4 h5 h6, of example_client]
  show ?thesis
    by (simp add: e example_client_fields t split: prod.splits)
qed

text \<open>
  C4. When a wrapped call receives a 401, the refresh succeeds, and the one retry receives
  a 401 again or any other status outside 200..299, the call fails with the
  \<open>ApiFailure\<close> of the retried response's status and status text; three requests were
  sent in all (the call, one token request, the retry) and no further outcome of either
  host has been consumed.
\<close>

theorem C4_retry_fails_once:
  assumes "call = listMessages q n \<and> url = MessagesUrl q n
           \<or> call = getMessage i \<and> url = MessageUrl i"
    and "gmail_api w = Responds r1 # Responds r2 # rest"
    and "status r1 = 401"
    and "token_endpoint w = Responds t # trest"
    and "ok t"
    and "\<not> ok r2"
  shows "case call c w of (result, c', w') \<Rightarrow>
           result = Inl (ApiFailure (status r2) (statusText r2))
           \<and> sent w' = sent w @
                [ApiRequest url [(''Authorization'', ''Bearer '' @ currentAccessToken c),
                                 (''Content-Type'', ''application/json'')],
                 TokenRequest (getenv w ''GOOGLE_CLIENT_ID'') (getenv w ''GOOGLE_CLIENT_SECRET'')
                   (refreshToken c),
                 ApiRequest url [(''Authorization'', ''Bearer '' @ body_access_token (json t)),
                                 (''Content-Type'', ''application/json'')]]
           \<and> gmail_api w' = rest
           \<and> token_endpoint w' = trest"
proof -
  from assms(1) have "call c w = makeRequest url [] c w"
    by (auto simp: listMessages_def getMessage_def)
  then show ?thesis
    using assms(6)
    by (simp add: makeRequest_refreshed [OF assms(2-5)] finish_def request_headers_default)
qed

theorem C4_retry_fails_once_witness:
  "fst (listMessages ''after:0'' 20 example_client world_retry_fails)
     = Inl (ApiFailure 403 ''Forbidden'')
   \<and> sent (snd (snd (listMessages ''after:0'' 20 example_client world_retry_fails)))
     = [ApiRequest (MessagesUrl ''after:0'' 20)
          [(''Authorization'', ''Bearer old''), (''Content-Type'', ''application/json'')],
        TokenRequest [] [] ''rt'',
        ApiRequest (MessagesUrl ''after:0'' 20)
          [(''Authorization'', ''Bearer new''), (''Content-Type'', ''application/json'')]]
   \<and> gmail_api (snd (snd (listMessages ''after:0'' 20 example_client world_retry_fails)))
     = [Responds (listing [])]
   \<and> token_endpoint (snd (snd (listMessages ''after:0'' 20 example_client world_retry_fails)))
     = []"
proof -
  let ?w = world_retry_fails
  have h1: "listMessages ''after:0'' 20 = listMessages ''after:0'' 20
              \<and> MessagesUrl ''after:0'' 20 = MessagesUrl ''after:0'' 20
            \<or> listMessages ''after:0'' 20 = getMessage []
              \<and> MessagesUrl ''after:0'' 20 = MessageUrl []"
    by simp
  have h2: "gmail_api ?w = Responds (failed 401 ''Unauthorized'')
              # Responds (failed 403 ''Forbidden'') # [Responds (listing [])]"
    by (simp add: world_retry_fails_def example_world_def)
  have h3: "status (failed 401 ''Unauthorized'') = 401"
    by (simp add: failed_def)
  have h4: "token_endpoint ?w = Responds (token_reply 200 ''OK'' ''new'') # []"
    by (simp add: world_retry_fails_def example_world_def)
  have h5: "ok (token_reply 200 ''OK'' ''new'')"
    by (simp add: ok_def token_reply_def)
  have h6: "\<not> ok (failed 403 ''Forbidden'')"
    by (simp add: ok_def failed_def)
  have e: "getenv ?w k = []" "sent ?w = []" for k
    by (simp_all add: world_retry_fails_def example_world_def getenv_def)
  have t: "body_access_token (json (token_reply 200 ''OK'' ''new'')) = ''new''"
    "status (failed 403 ''Forbidden'') = 403" "statusText (failed 403 ''Forbidden'') = ''Forbidden''"
    by (simp_all add: token_reply_def failed_def)
  from C4_retry_fails_once [OF h1 h2 h3 h4 h5 h6, of example_client]
  show ?thesis
    by (simp add: e example_client_fields t split: prod.splits)
qed

section \<open>The handler: claims\<close>

text \<open>
  C5 (as amended). Let the token endpoint answer the refresh that a 401 triggers with a
  status outside 200..299. When the 401 came on the \<^verbatim>\<open>listMessages\<close> call of a request
  with a valid identity and one stored token row, the \<open>RefreshFailure\<close> reaches the
  handler's \<^verbatim>\<open>catch\<close> and the response is the 500 with its message. When the 401 came on
  the \<^verbatim>\<open>getMessage\<close> call of an item of the loop, in whatever state the loop is, the
  \<open>RefreshFailure\<close> is caught by the loop's own \<^verbatim>\<open>catch\<close> and logged for that item, and
  the loop goes on with the remaining items and unchanged accumulators. So when the listing
  has succeeded, in whatever way, and this happens at one of the first 10 summaries, in the
  state the loop has reached after the summaries before it, the handler still answers 200
  with the report, and the failure is in the log for that item.
\<close>

theorem C5_refresh_failure_propagation:
  assumes "req_method req \<noteq> ''OPTIONS''"
    and "authorization req = Some h"
    and "h \<noteq> []"
    and "sessions w (replace_first ''Bearer '' [] h) = Some uid"
    and "filter (\<lambda>r. user_id r = uid) (auth_tokens w) = [row]"
  shows "(token_endpoint w = Responds t # trest \<and> \<not> ok t
          \<and> gmail_api w = Responds r1 # rest \<and> status r1 = 401 \<longrightarrow>
            fst (serve req w) =
              \<lparr>resp_status = 500, resp_headers = json_headers,
               resp_body = Failure False ''Failed to refresh token''\<rparr>)
         \<and> (token_endpoint wl = Responds t # trest \<and> \<not> ok t
             \<and> gmail_api wl = Responds r1 # rest \<and> status r1 = 401 \<longrightarrow>
            process_messages (m # ms) cl wl detl nl =
              process_messages ms cl
                (log (ErrProcessing (gm_id m) RefreshFailure)
                  (wl\<lparr>gmail_api := rest, token_endpoint := trest,
                      sent := sent wl @
                        [ApiRequest (MessageUrl (gm_id m))
                           (request_headers (currentAccessToken cl) []),
                         TokenRequest (getenv wl ''GOOGLE_CLIENT_ID'')
                           (getenv wl ''GOOGLE_CLIENT_SECRET'') (refreshToken cl)],
                      console := console wl @ [LogTokenExpired, ErrRefreshing RefreshFailure]\<rparr>))
                detl nl)
         \<and> (listMessages (''after:'' @ show_int ((clock w - 86400000) div 1000)) 20
               (createGmailClient uid (access_token row) (refresh_token row))
               (log LogFetching (log (LogTesting uid) w))
               = (Inr body, c3, w3)
             \<and> messages body = Some (ms1 @ m # ms2) \<and> length ms1 < 10
             \<and> process_messages ms1 c3 (log (LogFound (length (ms1 @ m # ms2))) w3) [] 0
                 = ((d1, n1), c1, w1)
             \<and> token_endpoint w1 = Responds t # trest \<and> \<not> ok t
             \<and> gmail_api w1 = Responds r1 # rest \<and> status r1 = 401 \<longrightarrow>
            resp_status (fst (serve req w)) = 200
            \<and> (\<exists>rep. resp_body (fst (serve req w)) =
                        Report True ''Gmail integration test completed successfully!'' rep)
            \<and> ErrProcessing (gm_id m) RefreshFailure \<in> set (console (snd (serve req w))))"
proof -
  have step: "process_messages (m # ms) cl wl detl nl =
              process_messages ms cl
                (log (ErrProcessing (gm_id m) RefreshFailure)
                  (wl\<lparr>gmail_api := rest, token_endpoint := trest,
                      sent := sent wl @
                        [ApiRequest (MessageUrl (gm_id m))
                           (request_headers (currentAccessToken cl) []),
                         TokenRequest (getenv wl ''GOOGLE_CLIENT_ID'')
                           (getenv wl ''GOOGLE_CLIENT_SECRET'') (refreshToken cl)],
                      console := console wl @ [LogTokenExpired, ErrRefreshing RefreshFailure]\<rparr>))
                detl nl"
    if "token_endpoint wl = Responds t # trest \<and> \<not> ok t
        \<and> gmail_api wl = Responds r1 # rest \<and> status r1 = 401"
    for m ms cl wl detl nl
  proof -
    from that have p: "gmail_api wl = Responds r1 # rest" "status r1 = 401"
      "token_endpoint wl = Responds t # trest" "\<not> ok t"
      by simp_all
    show ?thesis
      by (simp add: getMessage_def makeRequest_refresh_rejected [OF p])
  qed
  have on_list: "fst (serve req w) =
              \<lparr>resp_status = 500, resp_headers = json_headers,
               resp_body = Failure False ''Failed to refresh token''\<rparr>"
    if "token_endpoint w = Responds t # trest \<and> \<not> ok t
        \<and> gmail_api w = Responds r1 # rest \<and> status r1 = 401"
    using serve_refresh_failure_on_list [OF assms] that by blast
  have in_loop: "resp_status (fst (serve req w)) = 200
            \<and> (\<exists>rep. resp_body (fst (serve req w)) =
                        Report True ''Gmail integration test completed successfully!'' rep)
            \<and> ErrProcessing (gm_id m) RefreshFailure \<in> set (console (snd (serve req w)))"
    if a: "listMessages (''after:'' @ show_int ((clock w - 86400000) div 1000)) 20
               (createGmailClient uid (access_token row) (refresh_token row))
               (log LogFetching (log (LogTesting uid) w))
               = (Inr body, c3, w3)
             \<and> messages body = Some (ms1 @ m # ms2) \<and> length ms1 < 10
             \<and> process_messages ms1 c3 (log (LogFound (length (ms1 @ m # ms2))) w3) [] 0
                 = ((d1, n1), c1, w1)
             \<and> token_endpoint w1 = Responds t # trest \<and> \<not> ok t
             \<and> gmail_api w1 = Responds r1 # rest \<and> status r1 = 401"
  proof -
    let ?k = "9 - length ms1"
    let ?w4 = "log (LogFound (length (ms1 @ m # ms2))) w3"
    from a have l: "listMessages (''after:'' @ show_int ((clock w - 86400000) div 1000)) 20
               (createGmailClient uid (access_token row) (refresh_token row))
               (log LogFetching (log (LogTesting uid) w))
               = (Inr body, c3, w3)" "messages body = Some (ms1 @ m # ms2)"
      by simp_all
    note sr = serve_loop [OF assms l]
    from a have tk: "take 10 (ms1 @ m # ms2) = ms1 @ m # take ?k ms2"
      by (simp add: take_Cons')
    from a have p1: "process_messages ms1 c3 ?w4 [] 0 = ((d1, n1), c1, w1)"
      by simp
    from a have "token_endpoint w1 = Responds t # trest \<and> \<not> ok t
        \<and> gmail_api w1 = Responds r1 # rest \<and> status r1 = 401"
      by simp
    note st = step [OF this, of m "take ?k ms2" c1 d1 n1]
    obtain w6 where pm: "process_messages (take 10 (ms1 @ m # ms2)) c3 ?w4 [] 0
            = process_messages (take ?k ms2) c1 w6 d1 n1"
      and w6: "ErrProcessing (gm_id m) RefreshFailure \<in> set (console w6)"
      unfolding tk process_messages_append p1 prod.case st
      by (simp add: log_def)
    obtain det k c' w' where
      r: "process_messages (take ?k ms2) c1 w6 d1 n1 = ((det, k), c', w')"
      by (metis prod.exhaust)
    from process_messages_console [of "take ?k ms2" c1 w6 d1 n1] r
    obtain xs where "console w' = console w6 @ xs"
      by auto
    with w6 have "ErrProcessing (gm_id m) RefreshFailure \<in> set (console w')"
      by simp
    then show ?thesis
      using sr pm r by simp
  qed
  from on_list step in_loop show ?thesis
    by blast
qed

theorem C5_refresh_failure_propagation_witness:
  "\<not> ok (token_reply 400 ''Bad Request'' [])
   \<and> fst (serve example_request world_refresh_rejected_on_list) =
       \<lparr>resp_status = 500, resp_headers = json_headers,
        resp_body = Failure False ''Failed to refresh token''\<rparr>
   \<and> fst (process_messages [summary ''m2'', summary ''m3''] example_client
            world_rejected_at_item [] 0) =
       ([\<lparr>messageId = ''m3'', from_value = ''Morning Brew <crew@morningbrew.com>'',
          email = ''crew@morningbrew.com'', subject = JStr ''Hello'', date = JStr [],
          matched = True\<rparr>], 1)
   \<and> resp_status (fst (serve example_request world_refresh_rejected_mid_loop)) = 200
   \<and> ErrProcessing ''m2'' RefreshFailure
       \<in> set (console (snd (serve example_request world_refresh_rejected_mid_loop)))"
proof -
  let ?a = world_refresh_rejected_on_list
  let ?b = world_rejected_at_item
  let ?c = world_refresh_rejected_mid_loop
  let ?t = "token_reply 400 ''Bad Request'' []"
  let ?u = "failed 401 ''Unauthorized''"
  let ?d3 = "detail ''m3'' ''Morning Brew <crew@morningbrew.com>''"
  have n: "\<not> ok ?t"
    by (simp add: ok_def token_reply_def)
  have u: "status ?u = 401"
    by (simp add: failed_def)
  have a: "sessions ?a (replace_first ''Bearer '' [] ''Bearer jwt1'') = Some ''u1''"
    "filter (\<lambda>r. user_id r = ''u1'') (auth_tokens ?a) = [example_row]"
    "token_endpoint ?a = Responds ?t # []"
    "gmail_api ?a = Responds ?u # []"
    by (simp_all add: world_refresh_rejected_on_list_def example_world_def example_row_def
        startsWith_def)
  have first: "fst (serve example_request ?a) =
       \<lparr>resp_status = 500, resp_headers = json_headers,
        resp_body = Failure False ''Failed to refresh token''\<rparr>"
    using C5_refresh_failure_propagation [OF example_valid(1-3) a(1,2),
        where t = ?t and trest = "[]" and ?r1.0 = ?u and rest = "[]"] a(3,4) n u
    by blast
  have b: "token_endpoint ?b = Responds ?t # []" "gmail_api ?b = Responds ?u # [Responds ?d3]"
    by (simp_all add: world_rejected_at_item_def example_world_def)
  have "process_messages (summary ''m2'' # [summary ''m3'']) example_client ?b [] 0 =
      process_messages [summary ''m3''] example_client
        (log (ErrProcessing (gm_id (summary ''m2'')) RefreshFailure)
          (?b\<lparr>gmail_api := [Responds ?d3], token_endpoint := [],
              sent := sent ?b @
                [ApiRequest (MessageUrl (gm_id (summary ''m2'')))
                   (request_headers (currentAccessToken example_client) []),
                 TokenRequest (getenv ?b ''GOOGLE_CLIENT_ID'')
                   (getenv ?b ''GOOGLE_CLIENT_SECRET'') (refreshToken example_client)],
              console := console ?b @ [LogTokenExpired, ErrRefreshing RefreshFailure]\<rparr>))
        [] 0"
    using C5_refresh_failure_propagation [OF example_valid(1-3) a(1,2),
        where t = ?t and trest = "[]" and ?r1.0 = ?u and rest = "[Responds ?d3]" and wl = ?b
          and m = "summary ''m2''" and ms = "[summary ''m3'']" and cl = example_client
          and detl = "[]" and nl = 0] b n u
    by blast
  moreover have "fst (process_messages [summary ''m3''] example_client
        (log (ErrProcessing (gm_id (summary ''m2'')) RefreshFailure)
          (?b\<lparr>gmail_api := [Responds ?d3], token_endpoint := [],
              sent := sent ?b @
                [ApiRequest (MessageUrl (gm_id (summary ''m2'')))
                   (request_headers (currentAccessToken example_client) []),
                 TokenRequest (getenv ?b ''GOOGLE_CLIENT_ID'')
                   (getenv ?b ''GOOGLE_CLIENT_SECRET'') (refreshToken example_client)],
              console := console ?b @ [LogTokenExpired, ErrRefreshing RefreshFailure]\<rparr>))
        [] 0) =
       ([\<lparr>messageId = ''m3'', from_value = ''Morning Brew <crew@morningbrew.com>'',
          email = ''crew@morningbrew.com'', subject = JStr ''Hello'', date = JStr [],
          matched = True\<rparr>], 1)"
    by code_simp
  ultimately have second: "fst (process_messages [summary ''m2'', summary ''m3''] example_client
            ?b [] 0) =
       ([\<lparr>messageId = ''m3'', from_value = ''Morning Brew <crew@morningbrew.com>'',
          email = ''crew@morningbrew.com'', subject = JStr ''Hello'', date = JStr [],
          matched = True\<rparr>], 1)"
    by (simp only:)
  let ?L = "listMessages (''after:'' @ show_int ((clock ?c - 86400000) div 1000)) 20
              (createGmailClient ''u1'' (access_token example_row) (refresh_token example_row))
              (log LogFetching (log (LogTesting ''u1'') ?c))"
  let ?body = "ListBody (Some ([summary ''m1''] @ summary ''m2'' # [summary ''m3'']))"
  let ?P = "process_messages [summary ''m1''] (fst (snd ?L))
              (log (LogFound (length ([summary ''m1''] @ summary ''m2'' # [summary ''m3''])))
                 (snd (snd ?L))) [] 0"
  have c: "sessions ?c (replace_first ''Bearer '' [] ''Bearer jwt1'') = Some ''u1''"
    "filter (\<lambda>r. user_id r = ''u1'') (auth_tokens ?c) = [example_row]"
    by (simp_all add: world_refresh_rejected_mid_loop_def example_world_def example_row_def
        startsWith_def)
  have "fst ?L = Inr ?body"
    by code_simp
  then have l: "?L = (Inr ?body, fst (snd ?L), snd (snd ?L))"
    by (metis prod.collapse)
  have mb: "messages ?body = Some ([summary ''m1''] @ summary ''m2'' # [summary ''m3''])"
    "length [summary ''m1''] < 10" "gm_id (summary ''m2'') = ''m2''"
    by (simp_all add: summary_def)
  have p: "?P = ((fst (fst ?P), snd (fst ?P)), fst (snd ?P), snd (snd ?P))"
    by simp
  have s: "token_endpoint (snd (snd ?P)) = Responds ?t # []"
    "gmail_api (snd (snd ?P)) = Responds ?u # [Responds ?d3]"
    by code_simp+
  have third: "resp_status (fst (serve example_request ?c)) = 200
      \<and> ErrProcessing ''m2'' RefreshFailure \<in> set (console (snd (serve example_request ?c)))"
    using C5_refresh_failure_propagation [OF example_valid(1-3) c,
        where t = ?t and trest = "[]" and ?r1.0 = ?u and rest = "[Responds ?d3]"
          and body = ?body and ?c3.0 = "fst (snd ?L)" and ?w3.0 = "snd (snd ?L)"
          and ?ms1.0 = "[summary ''m1'']" and m = "summary ''m2''" and ?ms2.0 = "[summary ''m3'']"
          and ?d1.0 = "fst (fst ?P)" and ?n1.0 = "snd (fst ?P)" and ?c1.0 = "fst (snd ?P)"
          and ?w1.0 = "snd (snd ?P)"]
      l mb p s n u
    by (simp only:) blast
  from n first second third show ?thesis
    by (simp only: simp_thms)
qed

text \<open>
  The claim as written fails for a \<^verbatim>\<open>getMessage\<close> call inside the loop: the listing
  succeeds with one summary, the detail fetch gets a 401, the token endpoint answers 400,
  and the handler still answers 200; three requests were sent and the failure was logged
  by the loop for that item.
\<close>

theorem C5_refresh_failure_caught_counterexample:
  "\<not> ok (token_reply 400 ''Bad Request'' [])
   \<and> sent (snd (serve example_request world_refresh_rejected_in_loop)) =
       [ApiRequest (MessagesUrl ''after:1699913600'' 20)
          [(''Authorization'', ''Bearer old''), (''Content-Type'', ''application/json'')],
        ApiRequest (MessageUrl ''m1'')
          [(''Authorization'', ''Bearer old''), (''Content-Type'', ''application/json'')],
        TokenRequest [] [] ''rt'']
   \<and> console (snd (serve example_request world_refresh_rejected_in_loop)) =
       [LogTesting ''u1'', LogFetching, LogFound 1, LogTokenExpired,
        ErrRefreshing RefreshFailure, ErrProcessing ''m1'' RefreshFailure]
   \<and> resp_status (fst (serve example_request world_refresh_rejected_in_loop)) = 200"
  by code_simp

text \<open>
  C6. A failure of one item, while its detail is fetched or while it is read, does not abort
  the loop. Whatever the world does, every summary handed to the loop ends either counted in
  \<^verbatim>\<open>processedCount\<close> or logged by the loop's \<^verbatim>\<open>catch\<close>: the two counts add up to the
  number of summaries. In whatever state the loop reaches an item, if \<^verbatim>\<open>getMessage\<close>
  throws there, or returns a body whose reads throw, the loop goes on with the remaining
  items from what the items before it had produced, with the error logged for that item.
  And when, on a request with a valid identity and one stored token row, the listing returns
  at most 10 summaries, exactly one of them gets a failure status (not 401) or a 2xx body
  whose reads throw, and all the others get a 2xx body that reads well, the handler answers
  200 with the report whose total is the number of summaries, whose processed count is one
  less, and whose detected list is, in order, the entries of those other items whose address
  matches; the one error is logged for the failed item. With 10 summaries and the failure
  at item 5 the other 9 are classified.
\<close>

theorem C6_item_failure_isolated:
  assumes "req_method req \<noteq> ''OPTIONS''"
    and "authorization req = Some h"
    and "h \<noteq> []"
    and "sessions w (replace_first ''Bearer '' [] h) = Some uid"
    and "filter (\<lambda>r. user_id r = uid) (auth_tokens w) = [row]"
    and "gmail_api w = Responds l # map Responds oks1 @ Responds bad # map Responds oks2 @ rest"
    and "ok l"
    and "messages (json l) = Some (ms1 @ item # ms2)"
    and "length (ms1 @ item # ms2) \<le> 10"
    and "length oks1 = length ms1"
    and "length oks2 = length ms2"
    and "list_all readable oks1"
    and "list_all readable oks2"
    and "status bad \<noteq> 401"
    and "\<not> ok bad \<and> e = ApiFailure (status bad) (statusText bad)
         \<or> ok bad \<and> message_fields (detail_value (json bad)) = Inl e"
  shows "(case process_messages ms c w0 det n of
           ((det', n'), c', w') \<Rightarrow>
             n' + length (filter is_item_error (console w'))
             = n + length ms + length (filter is_item_error (console w0)))
         \<and> (process_messages xs c w0 det n = ((d1, n1), c1, w1)
             \<and> (getMessage (gm_id x) c1 w1 = (Inl e', c2, w2)
                 \<or> getMessage (gm_id x) c1 w1 = (Inr b, c2, w2)
                    \<and> message_fields (detail_value b) = Inl e') \<longrightarrow>
            process_messages (xs @ x # ys) c w0 det n
              = process_messages ys c2 (log (ErrProcessing (gm_id x) e') w2) d1 n1)
         \<and> fst (serve req w) =
             \<lparr>resp_status = 200, resp_headers = json_headers,
              resp_body = Report True ''Gmail integration test completed successfully!''
                \<lparr>stats_totalEmails = length ms1 + 1 + length ms2,
                 stats_processedEmails = length ms1 + length ms2,
                 stats_detectedNewsletters =
                   length (concat (map2 classified (ms1 @ ms2) (oks1 @ oks2))),
                 stats_curatedPatternsCount = length (filter is_active (newsletters_curated w)),
                 report_detectedNewsletters =
                   concat (map2 classified (ms1 @ ms2) (oks1 @ oks2)),
                 report_curatedPatterns =
                   map (\<lambda>n. (email_pattern n, name n))
                     (filter is_active (newsletters_curated w)),
                 newsletterDetection =
                   (0 < length (concat (map2 classified (ms1 @ ms2) (oks1 @ oks2))))\<rparr>\<rparr>
         \<and> console (snd (serve req w)) = console w @
              [LogTesting uid, LogFetching, LogFound (length ms1 + 1 + length ms2),
               ErrProcessing (gm_id item) e]"
proof -
  let ?msgs = "ms1 @ item # ms2"
  let ?c = "createGmailClient uid (access_token row) (refresh_token row)"
  let ?w4 = "w\<lparr>gmail_api := map Responds oks1 @ Responds bad # map Responds oks2 @ rest,
               sent := sent w @
                 [ApiRequest (MessagesUrl (''after:'' @ show_int ((clock w - 86400000) div 1000)) 20)
                    (request_headers (access_token row) [])],
               console := console w @ [LogTesting uid, LogFetching, LogFound (length ?msgs)]\<rparr>"
  note sr = serve_report [OF assms(1-5) assms(6) assms(7) assms(8)]
  have t: "take 10 ?msgs = ?msgs"
    using assms(9) by simp
  have "gmail_api ?w4 = map Responds oks1 @ Responds bad # map Responds oks2 @ rest"
    by simp
  from process_messages_one_failure [OF assms(10-15) this, of item ?c "[]" 0]
  obtain w' where
    p: "process_messages ?msgs ?c ?w4 [] 0
          = ((concat (map2 classified (ms1 @ ms2) (oks1 @ oks2)), length ms1 + length ms2), ?c, w')"
    and cw: "console w' = console ?w4 @ [ErrProcessing (gm_id item) e]"
      "newsletters_curated w' = newsletters_curated ?w4"
    by auto
  have handler: "fst (serve req w) =
             \<lparr>resp_status = 200, resp_headers = json_headers,
              resp_body = Report True ''Gmail integration test completed successfully!''
                \<lparr>stats_totalEmails = length ms1 + 1 + length ms2,
                 stats_processedEmails = length ms1 + length ms2,
                 stats_detectedNewsletters =
                   length (concat (map2 classified (ms1 @ ms2) (oks1 @ oks2))),
                 stats_curatedPatternsCount = length (filter is_active (newsletters_curated w)),
                 report_detectedNewsletters =
                   concat (map2 classified (ms1 @ ms2) (oks1 @ oks2)),
                 report_curatedPatterns =
                   map (\<lambda>n. (email_pattern n, name n))
                     (filter is_active (newsletters_curated w)),
                 newsletterDetection =
                   (0 < length (concat (map2 classified (ms1 @ ms2) (oks1 @ oks2))))\<rparr>\<rparr>
         \<and> console (snd (serve req w)) = console w @
              [LogTesting uid, LogFetching, LogFound (length ms1 + 1 + length ms2),
               ErrProcessing (gm_id item) e]"
    unfolding sr t p using cw by simp
  have continues: "process_messages (xs @ x # ys) c w0 det n
              = process_messages ys c2 (log (ErrProcessing (gm_id x) e') w2) d1 n1"
    if "process_messages xs c w0 det n = ((d1, n1), c1, w1)
             \<and> (getMessage (gm_id x) c1 w1 = (Inl e', c2, w2)
                 \<or> getMessage (gm_id x) c1 w1 = (Inr b, c2, w2)
                    \<and> message_fields (detail_value b) = Inl e')"
    using that by (auto simp: process_messages_append)
  from handler continues process_messages_accounting [where ms = ms and c = c and w = w0
      and det = det and n = n]
  show ?thesis
    by blast
qed

theorem C6_item_failure_isolated_witness:
  "length (summaries items_before @ summary ''m5'' # summaries items_after) = 10
   \<and> \<not> ok (failed 500 ''Internal Server Error'')
   \<and> ok malformed
   \<and> concat (map2 classified (summaries items_before @ summaries items_after)
         (details items_before @ details items_after)) =
       [\<lparr>messageId = ''m1'', from_value = ''Morning Brew <crew@morningbrew.com>'',
          email = ''crew@morningbrew.com'', subject = JStr ''Hello'', date = JStr [],
          matched = True\<rparr>,
        \<lparr>messageId = ''m3'', from_value = ''hello@thehustle.co'',
          email = ''hello@thehustle.co'', subject = JStr ''Hello'', date = JStr [],
          matched = True\<rparr>,
        \<lparr>messageId = ''m6'', from_value = ''A Writer <writer@Substack.com>'',
          email = ''writer@Substack.com'', subject = JStr ''Hello'', date = JStr [],
          matched = True\<rparr>]
   \<and> fst (serve example_request (world_item5 (failed 500 ''Internal Server Error''))) =
       \<lparr>resp_status = 200, resp_headers = json_headers,
        resp_body = Report True ''Gmail integration test completed successfully!''
         \<lparr>stats_totalEmails = 10, stats_processedEmails = 9, stats_detectedNewsletters = 3,
          stats_curatedPatternsCount = 0,
          report_detectedNewsletters =
            concat (map2 classified (summaries items_before @ summaries items_after)
              (details items_before @ details items_after)),
          report_curatedPatterns = [], newsletterDetection = True\<rparr>\<rparr>
   \<and> console (snd (serve example_request (world_item5 (failed 500 ''Internal Server Error'')))) =
       [LogTesting ''u1'', LogFetching, LogFound 10,
        ErrProcessing ''m5'' (ApiFailure 500 ''Internal Server Error'')]
   \<and> fst (serve example_request (world_item5 malformed)) =
       \<lparr>resp_status = 200, resp_headers = json_headers,
        resp_body = Report True ''Gmail integration test completed successfully!''
         \<lparr>stats_totalEmails = 10, stats_processedEmails = 9, stats_detectedNewsletters = 3,
          stats_curatedPatternsCount = 0,
          report_detectedNewsletters =
            concat (map2 classified (summaries items_before @ summaries items_after)
              (details items_before @ details items_after)),
          report_curatedPatterns = [], newsletterDetection = True\<rparr>\<rparr>
   \<and> console (snd (serve example_request (world_item5 malformed))) =
       [LogTesting ''u1'', LogFetching, LogFound 10,
        ErrProcessing ''m5''
          (TypeError (''Cannot read properties of null (reading '' @ [CHR 0x27] @ ''payload''
                        @ [CHR 0x27] @ '')''))]
   \<and> fst (process_messages [summary ''m5'', summary ''m6''] example_client
            world_malformed_item [] 0) =
       ([\<lparr>messageId = ''m6'', from_value = ''news@ghost.org'', email = ''news@ghost.org'',
          subject = JStr ''Hello'', date = JStr [], matched = True\<rparr>], 1)"
proof -
  let ?ms1 = "summaries items_before"
  let ?ms2 = "summaries items_after"
  let ?oks1 = "details items_before"
  let ?oks2 = "details items_after"
  let ?l = "listing (?ms1 @ summary ''m5'' # ?ms2)"
  let ?f = "failed 500 ''Internal Server Error''"
  let ?te = "TypeError (''Cannot read properties of null (reading '' @ [CHR 0x27] @ ''payload''
                        @ [CHR 0x27] @ '')'')"
  let ?D = "concat (map2 classified (?ms1 @ ?ms2) (?oks1 @ ?oks2))"
  have w: "sessions (world_item5 bad) (replace_first ''Bearer '' [] ''Bearer jwt1'') = Some ''u1''"
    "filter (\<lambda>r. user_id r = ''u1'') (auth_tokens (world_item5 bad)) = [example_row]"
    "gmail_api (world_item5 bad)
       = Responds ?l # map Responds ?oks1 @ Responds bad # map Responds ?oks2 @ []"
    "console (world_item5 bad) = []" "newsletters_curated (world_item5 bad) = []" for bad
    by (simp_all add: world_item5_def example_world_def example_row_def startsWith_def)
  have l: "ok ?l" "messages (json ?l) = Some (?ms1 @ summary ''m5'' # ?ms2)"
    by (simp_all add: ok_def listing_def)
  have n: "length (?ms1 @ summary ''m5'' # ?ms2) \<le> 10" "length ?oks1 = length ?ms1"
    "length ?oks2 = length ?ms2" "length (?ms1 @ summary ''m5'' # ?ms2) = 10"
    by (simp_all add: summaries_def details_def items_before_def items_after_def)
  have k: "list_all readable ?oks1" "list_all readable ?oks2"
    by code_simp+
  have f: "status ?f \<noteq> 401"
    "\<not> ok ?f \<and> ApiFailure 500 ''Internal Server Error'' = ApiFailure (status ?f) (statusText ?f)
     \<or> ok ?f \<and> message_fields (detail_value (json ?f)) = Inl (ApiFailure 500 ''Internal Server Error'')"
    "\<not> ok ?f"
    by (simp_all add: ok_def failed_def)
  have mf: "message_fields (detail_value (json malformed)) = Inl ?te"
    by (simp add: malformed_def message_fields_def headers_of_def)
  have g: "status malformed \<noteq> 401" "ok malformed"
    by (simp_all add: ok_def malformed_def)
  have g2: "\<not> ok malformed \<and> ?te = ApiFailure (status malformed) (statusText malformed)
     \<or> ok malformed \<and> message_fields (detail_value (json malformed)) = Inl ?te"
    using g(2) mf by blast
  have i: "gm_id (summary ''m5'') = ''m5''" "length ?ms1 + 1 + length ?ms2 = 10"
    "length ?ms1 + length ?ms2 = 9"
    by (simp_all add: summary_def summaries_def items_before_def items_after_def)
  have d: "?D =
       [\<lparr>messageId = ''m1'', from_value = ''Morning Brew <crew@morningbrew.com>'',
          email = ''crew@morningbrew.com'', subject = JStr ''Hello'', date = JStr [],
          matched = True\<rparr>,
        \<lparr>messageId = ''m3'', from_value = ''hello@thehustle.co'',
          email = ''hello@thehustle.co'', subject = JStr ''Hello'', date = JStr [],
          matched = True\<rparr>,
        \<lparr>messageId = ''m6'', from_value = ''A Writer <writer@Substack.com>'',
          email = ''writer@Substack.com'', subject = JStr ''Hello'', date = JStr [],
          matched = True\<rparr>]"
    by code_simp
  have dl: "length ?D = 3"
    by (simp only: d) simp
  note th1 = C6_item_failure_isolated [OF example_valid(1-3) w(1,2,3) l n(1-3) k f(1,2),
      where ms = "[]" and c = example_client and ?w0.0 = world_malformed_item and det = "[]"
        and n = 0]
  have a1: "fst (serve example_request (world_item5 ?f)) =
       \<lparr>resp_status = 200, resp_headers = json_headers,
        resp_body = Report True ''Gmail integration test completed successfully!''
         \<lparr>stats_totalEmails = 10, stats_processedEmails = 9, stats_detectedNewsletters = 3,
          stats_curatedPatternsCount = 0, report_detectedNewsletters = ?D,
          report_curatedPatterns = [], newsletterDetection = True\<rparr>\<rparr>"
    "console (snd (serve example_request (world_item5 ?f))) =
       [LogTesting ''u1'', LogFetching, LogFound 10,
        ErrProcessing ''m5'' (ApiFailure 500 ''Internal Server Error'')]"
    using th1 dl by (simp_all add: w(4,5) i)
  note th2 = C6_item_failure_isolated [OF example_valid(1-3) w(1,2,3) l n(1-3) k g(1) g2,
      where ms = "[]" and c = example_client and ?w0.0 = world_malformed_item and det = "[]"
        and n = 0]
  have a2: "fst (serve example_request (world_item5 malformed)) =
       \<lparr>resp_status = 200, resp_headers = json_headers,
        resp_body = Report True ''Gmail integration test completed successfully!''
         \<lparr>stats_totalEmails = 10, stats_processedEmails = 9, stats_detectedNewsletters = 3,
          stats_curatedPatternsCount = 0, report_detectedNewsletters = ?D,
          report_curatedPatterns = [], newsletterDetection = True\<rparr>\<rparr>"
    "console (snd (serve example_request (world_item5 malformed))) =
       [LogTesting ''u1'', LogFetching, LogFound 10, ErrProcessing ''m5'' ?te]"
    using th2 dl by (simp_all add: w(4,5) i)
  let ?w = world_malformed_item
  let ?w2 = "?w\<lparr>gmail_api := [Responds (detail ''m6'' ''news@ghost.org'')],
               sent := sent ?w @ [ApiRequest (MessageUrl ''m5'')
                                    (request_headers (currentAccessToken example_client) [])]\<rparr>"
  have gm: "getMessage (gm_id (summary ''m5'')) example_client ?w
            = (Inr (json malformed), example_client, ?w2)"
    using getMessage_direct [of ?w malformed "[Responds (detail ''m6'' ''news@ghost.org'')]"
        "''m5''" example_client] g
    by (simp add: world_malformed_item_def example_world_def finish_def i)
  have pn: "process_messages [] example_client ?w [] 0 = (([], 0), example_client, ?w)"
    by simp
  have "process_messages ([] @ summary ''m5'' # [summary ''m6'']) example_client ?w [] 0
        = process_messages [summary ''m6''] example_client
            (log (ErrProcessing (gm_id (summary ''m5'')) ?te) ?w2) [] 0"
    using th2 [where xs = "[]" and x = "summary ''m5''" and ys = "[summary ''m6'']"
        and ?d1.0 = "[]" and ?n1.0 = 0 and ?c1.0 = example_client and ?w1.0 = ?w
        and b = "json malformed" and ?c2.0 = example_client and ?w2.0 = ?w2 and e' = ?te]
      pn gm mf
    by blast
  then have "process_messages [summary ''m5'', summary ''m6''] example_client ?w [] 0
        = process_messages [summary ''m6''] example_client
            (log (ErrProcessing (gm_id (summary ''m5'')) ?te) ?w2) [] 0"
    by (simp only: append_Nil)
  moreover have "fst (process_messages [summary ''m6''] example_client
            (log (ErrProcessing (gm_id (summary ''m5'')) ?te) ?w2) [] 0) =
       ([\<lparr>messageId = ''m6'', from_value = ''news@ghost.org'', email = ''news@ghost.org'',
          subject = JStr ''Hello'', date = JStr [], matched = True\<rparr>], 1)"
    by code_simp
  ultimately have a3: "fst (process_messages [summary ''m5'', summary ''m6''] example_client
            ?w [] 0) =
       ([\<lparr>messageId = ''m6'', from_value = ''news@ghost.org'', email = ''news@ghost.org'',
          subject = JStr ''Hello'', date = JStr [], matched = True\<rparr>], 1)"
    by (simp only:)
  from n(4) f(3) g(2) d a1 a2 a3 show ?thesis
    by (simp only: simp_thms)
qed

text \<open>
  C9. For every request other than a preflight that carries a non-empty authorization
  header whose token the identity service resolves to a user, when the table of provider
  tokens has no row for that user, the handler answers with status 200 and the body with
  \<^verbatim>\<open>success\<close> false, the reconnect message and \<^verbatim>\<open>needsReauth\<close> true.
\<close>

theorem C9_missing_tokens:
  assumes "req_method req \<noteq> ''OPTIONS''"
    and "authorization req = Some h"
    and "h \<noteq> []"
    and "sessions w (replace_first ''Bearer '' [] h) = Some uid"
    and "filter (\<lambda>r. user_id r = uid) (auth_tokens w) = []"
  shows "fst (serve req w) =
           \<lparr>resp_status = 200, resp_headers = json_headers,
            resp_body = NeedsReauth False
              ''No Gmail tokens found. Please reconnect your Gmail account.'' True\<rparr>"
  using assms
  by (simp add: serve_def handle_def Let_def log_def)

theorem C9_missing_tokens_witness:
  "filter (\<lambda>r. user_id r = ''u1'') (auth_tokens world_no_tokens) = []
   \<and> fst (serve example_request world_no_tokens) =
       \<lparr>resp_status = 200, resp_headers = json_headers,
        resp_body = NeedsReauth False
          ''No Gmail tokens found. Please reconnect your Gmail account.'' True\<rparr>"
proof -
  have h: "filter (\<lambda>r. user_id r = ''u1'') (auth_tokens world_no_tokens) = []"
    by (simp add: world_no_tokens_def example_world_def)
  have s: "sessions world_no_tokens (replace_first ''Bearer '' [] ''Bearer jwt1'') = Some ''u1''"
    unfolding world_no_tokens_def by (rule example_valid(4))
  from C9_missing_tokens [OF example_valid(1-3) s h] h
  show ?thesis
    by simp
qed

text \<open>
  C10. Whatever the loop returns on the first 10 summaries, every entry of the detected
  list has \<^verbatim>\<open>matched\<close> true and an \<^verbatim>\<open>email\<close> that is the address extracted from its
  \<^verbatim>\<open>from\<close> field and satisfies the matcher; the list is no longer than the processed
  count, which is at most 10. The same holds of every report the handler returns, whose
  \<^verbatim>\<open>stats.detectedNewsletters\<close> is the length of the list.
\<close>

theorem C10_detected_entries:
  "(case process_messages (take 10 msgs) c w [] 0 of
      ((det, processedCount), c', w') \<Rightarrow>
        (\<forall>d \<in> set det. matched d \<and> email d = extractEmail (from_value d)
                          \<and> matchesNewsletterPattern (email d))
        \<and> length det \<le> processedCount \<and> processedCount \<le> 10)
   \<and> (resp_body (fst (serve req w)) = Report s msg rep \<longrightarrow>
        (\<forall>d \<in> set (report_detectedNewsletters rep).
            matched d \<and> email d = extractEmail (from_value d)
            \<and> matchesNewsletterPattern (email d))
        \<and> stats_detectedNewsletters rep = length (report_detectedNewsletters rep)
        \<and> length (report_detectedNewsletters rep) \<le> stats_processedEmails rep
        \<and> stats_processedEmails rep \<le> 10)"
proof -
  have loop: "(\<forall>d \<in> set det. matched d \<and> email d = extractEmail (from_value d)
                          \<and> matchesNewsletterPattern (email d))
        \<and> length det \<le> k \<and> k \<le> 10"
    if "process_messages (take 10 ms) c1 w1 [] 0 = ((det, k), c', w')" for ms c1 w1 det k c' w'
  proof -
    from process_messages_detected [where ms = "take 10 ms" and c = c1 and w = w1 and det = "[]" and n = 0] that
    have "list_all entry_ok det" "length det \<le> k" "k \<le> length (take 10 ms)"
      by auto
    then show ?thesis
      by (auto simp: list_all_iff entry_ok_def)
  qed
  obtain det k c' w' where r: "process_messages (take 10 msgs) c w [] 0 = ((det, k), c', w')"
    by (metis prod.exhaust)
  have "case process_messages (take 10 msgs) c w [] 0 of
      ((det, processedCount), c', w') \<Rightarrow>
        (\<forall>d \<in> set det. matched d \<and> email d = extractEmail (from_value d)
                          \<and> matchesNewsletterPattern (email d))
        \<and> length det \<le> processedCount \<and> processedCount \<le> 10"
    unfolding r prod.case by (rule loop [OF r])
  moreover have "(\<forall>d \<in> set (report_detectedNewsletters rep).
            matched d \<and> email d = extractEmail (from_value d)
            \<and> matchesNewsletterPattern (email d))
        \<and> stats_detectedNewsletters rep = length (report_detectedNewsletters rep)
        \<and> length (report_detectedNewsletters rep) \<le> stats_processedEmails rep
        \<and> stats_processedEmails rep \<le> 10"
    if "resp_body (fst (serve req w)) = Report s msg rep"
    using serve_report_origin [OF that] loop by metis
  ultimately show ?thesis
    by blast
qed

theorem C10_detected_entries_witness:
  "resp_body (fst (serve example_request world_two_messages)) =
       Report True ''Gmail integration test completed successfully!''
         \<lparr>stats_totalEmails = 2, stats_processedEmails = 2, stats_detectedNewsletters = 1,
          stats_curatedPatternsCount = 0,
          report_detectedNewsletters =
            [\<lparr>messageId = ''m1'', from_value = ''Morning Brew <Crew@MorningBrew.com>'',
              email = ''Crew@MorningBrew.com'', subject = JStr ''Hello'', date = JStr [],
              matched = True\<rparr>],
          report_curatedPatterns = [], newsletterDetection = True\<rparr>
   \<and> matchesNewsletterPattern ''Crew@MorningBrew.com''
   \<and> ''Crew@MorningBrew.com'' = extractEmail ''Morning Brew <Crew@MorningBrew.com>''"
proof -
  let ?d = "\<lparr>messageId = ''m1'', from_value = ''Morning Brew <Crew@MorningBrew.com>'',
              email = ''Crew@MorningBrew.com'', subject = JStr ''Hello'', date = JStr [],
              matched = True\<rparr>"
  let ?rep = "\<lparr>stats_totalEmails = 2, stats_processedEmails = 2, stats_detectedNewsletters = 1,
          stats_curatedPatternsCount = 0, report_detectedNewsletters = [?d],
          report_curatedPatterns = [], newsletterDetection = True\<rparr>"
  have r: "resp_body (fst (serve example_request world_two_messages)) =
       Report True ''Gmail integration test completed successfully!'' ?rep"
    by code_simp
  from C10_detected_entries [where req = example_request and w = world_two_messages
      and s = True and msg = "''Gmail integration test completed successfully!''" and rep = ?rep
      and msgs = "[]" and c = example_client] r
  have a: "\<forall>d \<in> set (report_detectedNewsletters ?rep).
          matched d \<and> email d = extractEmail (from_value d) \<and> matchesNewsletterPattern (email d)"
    by blast
  have m: "?d \<in> set (report_detectedNewsletters ?rep)"
    by simp
  note p = bspec [OF a m]
  have e: "email ?d = extractEmail (from_value ?d)"
    using p by blast
  have q: "matchesNewsletterPattern (email ?d)"
    using p by blast
  have "''Crew@MorningBrew.com'' = extractEmail ''Morning Brew <Crew@MorningBrew.com>''"
    using e unfolding detected.select_convs .
  moreover have "matchesNewsletterPattern ''Crew@MorningBrew.com''"
    using q unfolding detected.select_convs .
  ultimately show ?thesis
    using r by blast
qed

end
